theory Spec2Isabelle
  imports Complex_Main "HOL-Library.AList"
begin

section \<open>Numbers and strings\<close>

text \<open>
  A JavaScript number is modelled as an exact rational: the prices, fees, pack counts and
  amounts of the application are small decimal values, and rounding is not modelled.
  A JavaScript string is a \<open>string\<close>.
\<close>

type_synonym number = rat

section \<open>components/OrderForm.tsx: catalog and price computation\<close>

record food =
  value_of :: string
  label :: string
  price :: number

definition foodTypes :: "food list" where
  "foodTypes =
    [\<lparr>value_of = ''fried-rice'',
      label = ''Check Check Fried Rice (With Chicken, Sausage, Salad With Condiments & Free Drink)'',
      price = 25\<rparr>,
     \<lparr>value_of = ''noodles-chicken'', label = ''Super Loaded Noodles (With Chicken)'', price = 25\<rparr>,
     \<lparr>value_of = ''noodles-no-chicken'', label = ''Super Loaded Noodles (No Chicken)'', price = 20\<rparr>]"

record option_item =
  opt_value :: string
  opt_label :: string

definition baseOrderTypes :: "option_item list" where
  "baseOrderTypes =
    [\<lparr>opt_value = ''same-day'', opt_label = ''Same Day (+$5 rush fee)''\<rparr>,
     \<lparr>opt_value = ''pre-order'', opt_label = ''Pre-order''\<rparr>]"

record form_data =
  name :: string
  foodType :: string
  packs :: number
  orderType :: string
  pickupLocation :: string
  deliverToMe :: bool
  deliveryAddress :: string
  paymentMethod :: string

text \<open>The constants the component derives from \<open>formData\<close> on every render.\<close>

definition selectedFood :: "form_data \<Rightarrow> food option" where
  "selectedFood fd = find (\<lambda>f. value_of f = foodType fd) foodTypes"

definition basePricePerPack :: "form_data \<Rightarrow> number" where
  "basePricePerPack fd = (case selectedFood fd of Some f \<Rightarrow> price f | None \<Rightarrow> 0)"

definition subtotal :: "form_data \<Rightarrow> number" where
  "subtotal fd = basePricePerPack fd * packs fd"

definition rushFee :: "form_data \<Rightarrow> number" where
  "rushFee fd = (if orderType fd = ''same-day'' then 5 else 0)"

definition deliveryFee :: "form_data \<Rightarrow> number" where
  "deliveryFee fd = (if deliverToMe fd then 8 else 0)"

definition total_price :: "form_data \<Rightarrow> number" where
  "total_price fd = subtotal fd + rushFee fd + deliveryFee fd"

section \<open>Calendar dates\<close>

text \<open>
  A JavaScript \<open>Date\<close> is read by the application only through its local calendar fields
  (\<open>getFullYear\<close>, \<open>getMonth\<close>, \<open>getDate\<close>, \<open>getDay\<close>) and through date-fns formats
  that print those fields, so a date is modelled as the three calendar fields in the
  browser's time zone; the time of day is not modelled. Months count from 0, as in
  JavaScript. The day number and the weekday follow the definitions of ECMA-262
  (\<open>DayFromYear\<close>, \<open>InLeapYear\<close>, \<open>WeekDay\<close>), with day 0 the first of January 1970.
\<close>

record jsdate =
  year :: int
  month :: int
  date :: int

definition InLeapYear :: "int \<Rightarrow> bool" where
  "InLeapYear y = ((y mod 4 = 0 \<and> y mod 100 \<noteq> 0) \<or> y mod 400 = 0)"

definition DayFromYear :: "int \<Rightarrow> int" where
  "DayFromYear y = 365 * (y - 1970) + (y - 1969) div 4 - (y - 1901) div 100 + (y - 1601) div 400"

definition monthStart :: "int \<Rightarrow> int \<Rightarrow> int" where
  "monthStart y m =
     (let l = (if InLeapYear y then 1 else 0) in
      if m = 0 then 0 else if m = 1 then 31 else if m = 2 then 59 + l
      else if m = 3 then 90 + l else if m = 4 then 120 + l else if m = 5 then 151 + l
      else if m = 6 then 181 + l else if m = 7 then 212 + l else if m = 8 then 243 + l
      else if m = 9 then 273 + l else if m = 10 then 304 + l else 334 + l)"

definition Day :: "jsdate \<Rightarrow> int" where
  "Day d = DayFromYear (year d) + monthStart (year d) (month d) + date d - 1"

text \<open>\<open>Date.prototype.getDay\<close>: 0 is Sunday, 6 is Saturday.\<close>

definition getDay :: "jsdate \<Rightarrow> int" where
  "getDay d = (Day d + 4) mod 7"

text \<open>date-fns \<open>format(d, 'EEE')\<close> in the default (en-US) locale.\<close>

definition formatEEE :: "jsdate \<Rightarrow> string" where
  "formatEEE d = [''Sun'', ''Mon'', ''Tue'', ''Wed'', ''Thu'', ''Fri'', ''Sat''] ! nat (getDay d)"

text \<open>
  The \<open>Date\<close> constructor and \<open>setDate\<close> accept a day of the month outside the
  month and normalise it (ECMA-262, MakeDay): the date is the first of the month moved by
  the given number of days. The model moves day by day through the calendar; the lemmas
  below show that each step changes the day number by one.
\<close>

definition daysInMonth :: "int \<Rightarrow> int \<Rightarrow> int" where
  "daysInMonth y m =
     (if m = 1 then (if InLeapYear y then 29 else 28)
      else if m = 3 \<or> m = 5 \<or> m = 8 \<or> m = 10 then 30 else 31)"

definition valid_date :: "jsdate \<Rightarrow> bool" where
  "valid_date d = (0 \<le> month d \<and> month d \<le> 11 \<and> 1 \<le> date d
     \<and> date d \<le> daysInMonth (year d) (month d))"

definition nextDay :: "jsdate \<Rightarrow> jsdate" where
  "nextDay d =
     (if date d < daysInMonth (year d) (month d) then d\<lparr>date := date d + 1\<rparr>
      else if month d < 11 then \<lparr>year = year d, month = month d + 1, date = 1\<rparr>
      else \<lparr>year = year d + 1, month = 0, date = 1\<rparr>)"

definition prevDay :: "jsdate \<Rightarrow> jsdate" where
  "prevDay d =
     (if 1 < date d then d\<lparr>date := date d - 1\<rparr>
      else if 0 < month d
        then \<lparr>year = year d, month = month d - 1, date = daysInMonth (year d) (month d - 1)\<rparr>
      else \<lparr>year = year d - 1, month = 11, date = 31\<rparr>)"

definition addDays :: "jsdate \<Rightarrow> int \<Rightarrow> jsdate" where
  "addDays d k = (if 0 \<le> k then (nextDay ^^ nat k) d else (prevDay ^^ nat (- k)) d)"

definition newDate :: "int \<Rightarrow> int \<Rightarrow> int \<Rightarrow> jsdate" where
  "newDate y m dt = addDays \<lparr>year = y + m div 12, month = m mod 12, date = 1\<rparr> (dt - 1)"

definition setDate :: "jsdate \<Rightarrow> int \<Rightarrow> jsdate" where
  "setDate d n = newDate (year d) (month d) n"

text \<open>
  date-fns \<open>startOfWeek\<close> and \<open>endOfWeek\<close> with the option \<open>weekStartsOn\<close>, and
  \<open>format(d, 'yyyy-MM-dd')\<close> with its \<open>addLeadingZeros\<close>.
\<close>

definition startOfWeek :: "jsdate \<Rightarrow> int \<Rightarrow> jsdate" where
  "startOfWeek d weekStartsOn =
     (let dy = getDay d;
          diff = (if dy < weekStartsOn then 7 else 0) + dy - weekStartsOn
      in setDate d (date d - diff))"

definition endOfWeek :: "jsdate \<Rightarrow> int \<Rightarrow> jsdate" where
  "endOfWeek d weekStartsOn =
     (let dy = getDay d;
          diff = (if dy < weekStartsOn then - 7 else 0) + 6 - (dy - weekStartsOn)
      in setDate d (date d + diff))"

definition digitChar :: "nat \<Rightarrow> char" where
  "digitChar n = ''0123456789'' ! n"

fun showNat :: "nat \<Rightarrow> string" where
  "showNat n = (if n < 10 then [digitChar n] else showNat (n div 10) @ [digitChar (n mod 10)])"

declare showNat.simps [simp del]

definition addLeadingZeros :: "int \<Rightarrow> nat \<Rightarrow> string" where
  "addLeadingZeros n targetLength =
     (let digits = showNat (nat \<bar>n\<bar>)
      in (if n < 0 then ''-'' else '''')
         @ replicate (targetLength - length digits) CHR ''0'' @ digits)"

definition formatYMD :: "jsdate \<Rightarrow> string" where
  "formatYMD d =
     addLeadingZeros (if 0 < year d then year d else 1 - year d) 4 @ ''-''
     @ addLeadingZeros (month d + 1) 2 @ ''-'' @ addLeadingZeros (date d) 2"

section \<open>components/OrderForm.tsx: order types offered\<close>

text \<open>
  The effect run when the form mounts: from today's date it computes the weekend flag,
  the order types offered and the default order type.
\<close>

record eligibility =
  weekend :: bool
  types :: "option_item list"
  defaultType :: string

definition orderTypesEffect :: "jsdate \<Rightarrow> eligibility" where
  "orderTypesEffect today =
     (let dayOfWeek = getDay today;
          weekend = (dayOfWeek = 0 \<or> dayOfWeek = 6)
      in if weekend
         then \<lparr>weekend = weekend,
               types = filter (\<lambda>t. opt_value t = ''same-day'') baseOrderTypes,
               defaultType = ''same-day''\<rparr>
         else \<lparr>weekend = weekend,
               types = filter (\<lambda>t. opt_value t = ''pre-order'') baseOrderTypes,
               defaultType = ''pre-order''\<rparr>)"

section \<open>components/DashboardContent.tsx and pages/Dashboard.tsx: analytics\<close>

text \<open>
  The fields of an order row that both dashboards declare. DashboardContent.tsx adds the
  key \<open>order_id\<close>; pages/Dashboard.tsx names the key \<open>id\<close> and declares further fields.
  \<open>calculateAnalytics\<close> has the same text in both files and reads the common fields only.
\<close>

record order_data =
  created_at :: string
  customer_name :: string
  food_type :: string
  number_of_packs :: number
  order_type :: string
  delivery_method :: string
  delivery_address :: "string option"
  total_amount :: number
  order_status :: string
  payment_status :: string

record content_order = order_data +
  order_id :: string

record page_order = order_data +
  id_of :: string
  pickup_location :: "string option"
  order_subtotal :: number
  rush_fee :: number
  delivery_fee :: number
  tracking_token :: string
  order_notes :: "string option"

record food_stats =
  count :: number
  revenue :: number

record top_item =
  item_name :: string
  item_count :: number
  item_revenue :: number

record day_entry =
  day :: string
  day_revenue :: number
  day_orders :: number

text \<open>
  The quotient of two numbers in JavaScript: a division by zero does not fail, it gives
  \<open>NaN\<close> for \<open>0 / 0\<close> and an infinity otherwise. The average order value is the one
  quotient that the analytics compute, so its field holds such a value.
\<close>

datatype js_number = Finite number | NaN | PosInfinity | NegInfinity

definition jsDivide :: "number \<Rightarrow> number \<Rightarrow> js_number" where
  "jsDivide a b =
     (if b = 0 then (if a = 0 then NaN else if 0 < a then PosInfinity else NegInfinity)
      else Finite (a / b))"

record analytics_data =
  pickupCount :: number
  deliveryCount :: number
  totalRevenue :: number
  avgOrderValue :: js_number
  topFoodItems :: "top_item list"
  revenueByDay :: "day_entry list"

definition foodTypeLabels :: "(string \<times> string) list" where
  "foodTypeLabels =
    [(''fried-rice'', ''Check Check Fried Rice''),
     (''noodles-chicken'', ''Super Loaded Noodles (With Chicken)''),
     (''noodles-no-chicken'', ''Super Loaded Noodles (No Chicken)'')]"

text \<open>
  \<open>foodTypeLabels\<close> is an object literal, so \<open>foodTypeLabels[k]\<close> finds its own three
  properties and, for any other key, the members that every object inherits from
  \<open>Object.prototype\<close>: eleven built-in functions and the accessor \<open>__proto__\<close>, which
  yields \<open>Object.prototype\<close> itself. All of them are truthy. Used as a property key, a
  built-in function becomes its source text and \<open>Object.prototype\<close> becomes
  \<open>[object Object]\<close>. The source text of a built-in function is written here as V8 and
  JavaScriptCore print it; ECMA-262 fixes its tokens and leaves its white space to the
  implementation.
\<close>

definition objectPrototypeFunctions :: "(string \<times> string) list" where
  "objectPrototypeFunctions =
    [(''constructor'', ''Object''),
     (''hasOwnProperty'', ''hasOwnProperty''),
     (''isPrototypeOf'', ''isPrototypeOf''),
     (''propertyIsEnumerable'', ''propertyIsEnumerable''),
     (''toLocaleString'', ''toLocaleString''),
     (''toString'', ''toString''),
     (''valueOf'', ''valueOf''),
     (''__defineGetter__'', ''__defineGetter__''),
     (''__defineSetter__'', ''__defineSetter__''),
     (''__lookupGetter__'', ''__lookupGetter__''),
     (''__lookupSetter__'', ''__lookupSetter__'')]"

definition nativeFunctionText :: "string \<Rightarrow> string" where
  "nativeFunctionText fname = ''function '' @ fname @ ''() { [native code] }''"

definition inheritedKeyText :: "string \<Rightarrow> string option" where
  "inheritedKeyText k =
     (if k = ''__proto__'' then Some ''[object Object]''
      else map_option nativeFunctionText (map_of objectPrototypeFunctions k))"

text \<open>
  \<open>foodTypeLabels[order.food_type] || order.food_type\<close>, as the key under which
  \<open>foodStats\<close> holds the order: the label of a known identifier, the text of the
  inherited member for an identifier that names one, and the raw identifier otherwise.
\<close>

definition foodName :: "'a order_data_scheme \<Rightarrow> string" where
  "foodName order =
     (case map_of foodTypeLabels (food_type order) of
        Some l \<Rightarrow> if l \<noteq> [] then l else food_type order
      | None \<Rightarrow>
          (case inheritedKeyText (food_type order) of
             Some member \<Rightarrow> member
           | None \<Rightarrow> food_type order))"

text \<open>
  A JavaScript object with string keys is an association list in the order in which the
  properties were created. The accumulator \<open>foodStats\<close> inherits the same members, but
  no food name is the name of one (lemma \<open>foodName_not_inherited\<close>), so its own
  properties decide \<open>acc[foodName]\<close>. One step of the reduction that builds it:
\<close>

definition foodStatsStep ::
  "(string \<times> food_stats) list \<Rightarrow> 'a order_data_scheme \<Rightarrow> (string \<times> food_stats) list" where
  "foodStatsStep acc order =
     (let acc1 = (if map_of acc (foodName order) = None
                  then acc @ [(foodName order, \<lparr>count = 0, revenue = 0\<rparr>)] else acc);
          acc2 = AList.map_entry (foodName order)
                   (\<lambda>s. s\<lparr>count := count s + number_of_packs order\<rparr>) acc1
      in AList.map_entry (foodName order)
           (\<lambda>s. s\<lparr>revenue := revenue s + total_amount order\<rparr>) acc2)"

text \<open>
  \<open>Object.entries\<close> lists the keys that are array indices first, in ascending numeric
  order, and then the other string keys in the order of their creation (ECMA-262,
  OrdinaryOwnPropertyKeys). An array index is the canonical decimal form of an integer
  from 0 to 4294967294.
\<close>

definition isDigit :: "char \<Rightarrow> bool" where
  "isDigit c = (48 \<le> (of_char c :: nat) \<and> (of_char c :: nat) \<le> 57)"

definition indexValue :: "string \<Rightarrow> nat" where
  "indexValue s = foldl (\<lambda>a c. 10 * a + (of_char c - 48)) 0 s"

definition isArrayIndex :: "string \<Rightarrow> bool" where
  "isArrayIndex s =
     (s \<noteq> [] \<and> list_all isDigit s \<and> (hd s \<noteq> CHR ''0'' \<or> length s = 1)
      \<and> indexValue s < 4294967295)"

definition objectEntries :: "(string \<times> 'v) list \<Rightarrow> (string \<times> 'v) list" where
  "objectEntries obj =
     sort_key (\<lambda>e. indexValue (fst e)) (filter (\<lambda>e. isArrayIndex (fst e)) obj)
     @ filter (\<lambda>e. \<not> isArrayIndex (fst e)) obj"

text \<open>
  \<open>Array.prototype.sort\<close> is stable; with the comparator \<open>b.count - a.count\<close> it sorts
  by descending count, which is \<open>sort_key\<close> on the negated count.
\<close>

definition topItems :: "'a order_data_scheme list \<Rightarrow> top_item list" where
  "topItems orderData =
     (let foodStats = foldl foodStatsStep [] orderData
      in take 5
           (sort_key (\<lambda>a. - item_count a)
              (map (\<lambda>(n, stats). \<lparr>item_name = n, item_count = count stats, item_revenue = revenue stats\<rparr>)
                 (objectEntries foodStats))))"

text \<open>
  One step of the reduction that builds \<open>revenueByDay\<close>: the first entry of the day is
  updated in place, or a new entry is pushed. \<open>parseISO\<close> stands for date-fns
  \<open>parseISO\<close> read in the browser's time zone; it is a parameter.
\<close>

fun updateFirst :: "('a \<Rightarrow> bool) \<Rightarrow> ('a \<Rightarrow> 'a) \<Rightarrow> 'a list \<Rightarrow> 'a list" where
  "updateFirst P f [] = []"
| "updateFirst P f (x # xs) = (if P x then f x # xs else x # updateFirst P f xs)"

definition revenueStep ::
  "(string \<Rightarrow> jsdate) \<Rightarrow> day_entry list \<Rightarrow> 'a order_data_scheme \<Rightarrow> day_entry list" where
  "revenueStep parseISO acc order =
     (let d = formatEEE (parseISO (created_at order))
      in case find (\<lambda>e. day e = d) acc of
           Some existingDay \<Rightarrow>
             updateFirst (\<lambda>e. day e = d)
               (\<lambda>e. e\<lparr>day_revenue := day_revenue e + total_amount order,
                       day_orders := day_orders e + 1\<rparr>) acc
         | None \<Rightarrow> acc @ [\<lparr>day = d, day_revenue = total_amount order, day_orders = 1\<rparr>])"

definition daysOfWeek :: "string list" where
  "daysOfWeek = [''Mon'', ''Tue'', ''Wed'', ''Thu'', ''Fri'', ''Sat'', ''Sun'']"

definition completeRevenueByDay ::
  "(string \<Rightarrow> jsdate) \<Rightarrow> 'a order_data_scheme list \<Rightarrow> day_entry list" where
  "completeRevenueByDay parseISO orderData =
     (let revenueByDay = foldl (revenueStep parseISO) [] orderData
      in map (\<lambda>d. case find (\<lambda>e. day e = d) revenueByDay of
                     Some existing \<Rightarrow> existing
                   | None \<Rightarrow> \<lparr>day = d, day_revenue = 0, day_orders = 0\<rparr>)
           daysOfWeek)"

definition calculateAnalytics ::
  "(string \<Rightarrow> jsdate) \<Rightarrow> 'a order_data_scheme list \<Rightarrow> analytics_data" where
  "calculateAnalytics parseISO orderData =
     (let revenueSum = foldl (\<lambda>acc x. acc + total_amount x) 0 orderData
      in \<lparr>pickupCount = of_nat (length (filter (\<lambda>x. delivery_method x = ''pickup'') orderData)),
          deliveryCount = of_nat (length (filter (\<lambda>x. delivery_method x = ''delivery'') orderData)),
          totalRevenue = revenueSum,
          avgOrderValue = (if length orderData > 0
                           then jsDivide revenueSum (of_nat (length orderData))
                           else Finite 0),
          topFoodItems = topItems orderData,
          revenueByDay = completeRevenueByDay parseISO orderData\<rparr>)"

text \<open>
  The aggregation as the specification words it, for comparison with the code:
  the names in the order in which the input first shows them, and for each name the
  sums over the orders of that name.
\<close>

definition firstSeen :: "'a list \<Rightarrow> 'a list" where
  "firstSeen xs = rev (remdups (rev xs))"

definition groupItem :: "'a order_data_scheme list \<Rightarrow> string \<Rightarrow> top_item" where
  "groupItem orderData n =
     \<lparr>item_name = n,
      item_count = sum_list (map number_of_packs (filter (\<lambda>x. foodName x = n) orderData)),
      item_revenue = sum_list (map total_amount (filter (\<lambda>x. foodName x = n) orderData))\<rparr>"

definition topFoodItems_spec :: "'a order_data_scheme list \<Rightarrow> top_item list" where
  "topFoodItems_spec orderData =
     take 5 (sort_key (\<lambda>a. - item_count a)
       (map (groupItem orderData) (firstSeen (map foodName orderData))))"

definition propertyOrder :: "string list \<Rightarrow> string list" where
  "propertyOrder ks = sort_key indexValue (filter isArrayIndex ks) @ filter (\<lambda>k. \<not> isArrayIndex k) ks"

definition dayGroup ::
  "(string \<Rightarrow> jsdate) \<Rightarrow> 'a order_data_scheme list \<Rightarrow> string \<Rightarrow> day_entry" where
  "dayGroup parseISO orderData d =
     \<lparr>day = d,
      day_revenue = sum_list (map total_amount
         (filter (\<lambda>x. formatEEE (parseISO (created_at x)) = d) orderData)),
      day_orders = of_nat (length
         (filter (\<lambda>x. formatEEE (parseISO (created_at x)) = d) orderData))\<rparr>"

text \<open>
  The entry of one weekday as the specification words it: the sum of the amounts and
  the number of the orders created on weekday \<open>n\<close> (0 is Sunday), under the label \<open>d\<close>.
\<close>

definition dayItem ::
  "(string \<Rightarrow> jsdate) \<Rightarrow> 'a order_data_scheme list \<Rightarrow> string \<Rightarrow> int \<Rightarrow> day_entry" where
  "dayItem parseISO orderData d n =
     \<lparr>day = d,
      day_revenue = sum_list (map total_amount
         (filter (\<lambda>x. getDay (parseISO (created_at x)) = n) orderData)),
      day_orders = of_nat (length
         (filter (\<lambda>x. getDay (parseISO (created_at x)) = n) orderData))\<rparr>"

definition statsOf :: "'a order_data_scheme list \<Rightarrow> string \<Rightarrow> food_stats" where
  "statsOf orderData n =
     \<lparr>count = sum_list (map number_of_packs (filter (\<lambda>x. foodName x = n) orderData)),
      revenue = sum_list (map total_amount (filter (\<lambda>x. foodName x = n) orderData))\<rparr>"

section \<open>components/DashboardContent.tsx: date range and order query\<close>

record date_range =
  range_start :: string
  range_end :: string

definition getDateRangeFilter :: "string \<Rightarrow> jsdate \<Rightarrow> string \<Rightarrow> string \<Rightarrow> date_range" where
  "getDateRangeFilter dateRange now customStartDate customEndDate =
     (if dateRange = ''today''
        then \<lparr>range_start = formatYMD now, range_end = formatYMD now\<rparr>
      else if dateRange = ''week''
        then \<lparr>range_start = formatYMD (startOfWeek now 1),
              range_end = formatYMD (endOfWeek now 1)\<rparr>
      else if dateRange = ''month''
        then (let firstDay = newDate (year now) (month now) 1;
                  lastDay = newDate (year now) (month now + 1) 0
              in \<lparr>range_start = formatYMD firstDay, range_end = formatYMD lastDay\<rparr>)
      else if dateRange = ''custom''
        then \<lparr>range_start = customStartDate, range_end = customEndDate\<rparr>
      else \<lparr>range_start = formatYMD (startOfWeek now 1),
            range_end = formatYMD (endOfWeek now 1)\<rparr>)"

text \<open>
  The query that \<open>fetchOrders\<close> sends to the order store: all columns of the table
  \<open>orders\<close>, newest first, with the bounds on \<open>created_at\<close> when they are applied.
\<close>

record orders_query =
  query_table :: string
  order_column :: string
  order_ascending :: bool
  created_at_gte :: "string option"
  created_at_lte :: "string option"

definition ordersQuery :: "string \<Rightarrow> jsdate \<Rightarrow> string \<Rightarrow> string \<Rightarrow> orders_query" where
  "ordersQuery dateRange now customStartDate customEndDate =
     (let r = getDateRangeFilter dateRange now customStartDate customEndDate
      in \<lparr>query_table = ''orders'', order_column = ''created_at'', order_ascending = False,
          created_at_gte = (if dateRange \<noteq> ''all''
                            then Some (range_start r @ ''T00:00:00'') else None),
          created_at_lte = (if dateRange \<noteq> ''all''
                            then Some (range_end r @ ''T23:59:59'') else None)\<rparr>)"

section \<open>Dashboard state, remote calls and notifications\<close>

text \<open>
  A handler is a function from the component state and the replies of the remote
  collaborators to the new state and the list of its effects, in order: the requests
  sent to the order store and the notifications shown. Console output is not modelled,
  nor is the slot state of the dashboards.
\<close>

datatype toast_variant = Default | Destructive

record toast =
  title :: string
  description :: string
  variant :: toast_variant

datatype 'a response = RemoteError string | RemoteData 'a

record order_updates =
  upd_payment_status :: "string option"
  upd_order_status :: "string option"

datatype action_type = confirmPayment | markPreparing | markReady | markDelivered | cancelOrder

datatype effect =
    ToastShown toast
  | OrdersSelect orders_query
  | OrdersUpdate string string order_updates

record 'o dashboard_state =
  orders :: "'o list"
  analytics :: analytics_data
  loading :: bool
  dateRange :: string
  customStartDate :: string
  customEndDate :: string
  selectedOrder :: "'o option"
  actionType :: "action_type option"

record 'o remote_env =
  now :: jsdate
  parseISO :: "string \<Rightarrow> jsdate"
  update_response :: "unit response"
  select_response :: "'o list option response"

definition fetchOrders ::
  "('a order_data_scheme) remote_env \<Rightarrow> ('a order_data_scheme) dashboard_state
   \<Rightarrow> ('a order_data_scheme) dashboard_state \<times> effect list" where
  "fetchOrders env st =
     (let q = ordersQuery (dateRange st) (now env) (customStartDate st) (customEndDate st)
      in case select_response env of
           RemoteData data \<Rightarrow>
             (let rows = (case data of Some r \<Rightarrow> r | None \<Rightarrow> [])
              in (st\<lparr>orders := rows,
                     analytics := calculateAnalytics (parseISO env) rows,
                     loading := False\<rparr>,
                  [OrdersSelect q]))
         | RemoteError e \<Rightarrow>
             (st\<lparr>loading := False\<rparr>,
              [OrdersSelect q,
               ToastShown \<lparr>title = ''Error'', description = ''Failed to load orders'',
                           variant = Destructive\<rparr>]))"

text \<open>components/DashboardContent.tsx: the action buttons of an order row.\<close>

definition offeredActions :: "'a order_data_scheme \<Rightarrow> action_type list" where
  "offeredActions order =
     (if payment_status order = ''awaiting confirmation'' then [confirmPayment] else [])
     @ (if payment_status order = ''confirmed paid'' \<and> order_status order = ''pending''
        then [markPreparing] else [])
     @ (if order_status order = ''preparing'' then [markReady] else [])
     @ (if order_status order = ''ready'' then [markDelivered] else [])"

text \<open>pages/Dashboard.tsx: the action buttons of an order row in the other dashboard.\<close>

definition page_offeredActions :: "'a order_data_scheme \<Rightarrow> action_type list" where
  "page_offeredActions order =
     (if payment_status order = ''awaiting_confirmation'' then [confirmPayment] else [])
     @ (if order_status order = ''ready'' \<and> payment_status order = ''paid''
        then [markDelivered] else [])
     @ (if order_status order \<in> set [''pending'', ''preparing''] then [cancelOrder] else [])"

definition clickAction ::
  "'o \<Rightarrow> action_type \<Rightarrow> 'o dashboard_state \<Rightarrow> 'o dashboard_state" where
  "clickAction order a st = st\<lparr>selectedOrder := Some order, actionType := Some a\<rparr>"

text \<open>components/DashboardContent.tsx: \<open>handleOrderAction\<close>.\<close>

definition noUpdates :: order_updates where
  "noUpdates = \<lparr>upd_payment_status = None, upd_order_status = None\<rparr>"

text \<open>
  The switch of \<open>handleOrderAction\<close>: the update and the message of an action, or
  \<open>None\<close> where the case returns from the handler.
\<close>

definition actionUpdates :: "action_type \<Rightarrow> (order_updates \<times> string) option" where
  "actionUpdates a =
     (case a of
        confirmPayment \<Rightarrow>
          Some (noUpdates\<lparr>upd_payment_status := Some ''confirmed paid''\<rparr>, ''Payment confirmed'')
      | markPreparing \<Rightarrow>
          Some (noUpdates\<lparr>upd_order_status := Some ''preparing''\<rparr>, ''Order marked as preparing'')
      | markReady \<Rightarrow>
          Some (noUpdates\<lparr>upd_order_status := Some ''ready''\<rparr>, ''Order marked as ready'')
      | markDelivered \<Rightarrow>
          Some (noUpdates\<lparr>upd_order_status := Some ''delivered''\<rparr>, ''Order marked as delivered'')
      | cancelOrder \<Rightarrow> None)"

definition handleOrderAction ::
  "content_order remote_env \<Rightarrow> content_order dashboard_state
   \<Rightarrow> content_order dashboard_state \<times> effect list" where
  "handleOrderAction env st =
     (case (selectedOrder st, actionType st) of
        (Some sel, Some a) \<Rightarrow>
          (case actionUpdates a of
             None \<Rightarrow>
               (st, [ToastShown \<lparr>title = ''Error'',
                       description = ''Cancel feature not implemented in database'',
                       variant = Destructive\<rparr>])
           | Some (updates, message) \<Rightarrow>
               (let request = OrdersUpdate ''order_id'' (order_id sel) updates
                in case update_response env of
                     RemoteError e \<Rightarrow>
                       (st, [request,
                             ToastShown \<lparr>title = ''Error'', description = ''Failed to update order'',
                                         variant = Destructive\<rparr>])
                   | RemoteData u \<Rightarrow>
                       (let (st1, fetched) = fetchOrders env st
                        in (st1\<lparr>selectedOrder := None, actionType := None\<rparr>,
                            [request,
                             ToastShown \<lparr>title = ''Success'', description = message,
                                         variant = Default\<rparr>] @ fetched))))
      | _ \<Rightarrow> (st, []))"

text \<open>
  pages/Dashboard.tsx: \<open>handleOrderAction\<close> of the other dashboard. Its state declares
  the actions confirmPayment, markDelivered and cancelOrder only; for another action no
  case of the switch applies and the update is empty.
\<close>

definition page_actionUpdates :: "action_type \<Rightarrow> order_updates \<times> string" where
  "page_actionUpdates a =
     (case a of
        confirmPayment \<Rightarrow>
          (noUpdates\<lparr>upd_payment_status := Some ''paid'', upd_order_status := Some ''preparing''\<rparr>,
           ''Payment confirmed and order moved to preparation'')
      | markDelivered \<Rightarrow>
          (noUpdates\<lparr>upd_order_status := Some ''delivered''\<rparr>, ''Order marked as delivered'')
      | cancelOrder \<Rightarrow>
          (noUpdates\<lparr>upd_order_status := Some ''cancelled''\<rparr>, ''Order cancelled'')
      | _ \<Rightarrow> (noUpdates, []))"

definition page_handleOrderAction ::
  "page_order remote_env \<Rightarrow> page_order dashboard_state
   \<Rightarrow> page_order dashboard_state \<times> effect list" where
  "page_handleOrderAction env st =
     (case (selectedOrder st, actionType st) of
        (Some sel, Some a) \<Rightarrow>
          (let (updates, message) = page_actionUpdates a;
               request = OrdersUpdate ''id'' (id_of sel) updates
           in case update_response env of
                RemoteError e \<Rightarrow>
                  (st, [request,
                        ToastShown \<lparr>title = ''Error'', description = ''Failed to update order'',
                                    variant = Destructive\<rparr>])
              | RemoteData u \<Rightarrow>
                  (let (st1, fetched) = fetchOrders env st
                   in (st1,
                       [request,
                        ToastShown \<lparr>title = ''Success'', description = message,
                                    variant = Default\<rparr>] @ fetched)))
      | _ \<Rightarrow> (st, []))"

text \<open>
  The order store applies an update request to the rows whose key equals the given one
  (the contract \<open>update(id, fields)\<close> of the order store); the other effects leave the
  rows as they are.
\<close>

definition applyUpdates :: "order_updates \<Rightarrow> 'a order_data_scheme \<Rightarrow> 'a order_data_scheme" where
  "applyUpdates u r =
     r\<lparr>payment_status := (case upd_payment_status u of Some v \<Rightarrow> v | None \<Rightarrow> payment_status r),
       order_status := (case upd_order_status u of Some v \<Rightarrow> v | None \<Rightarrow> order_status r)\<rparr>"

fun storeAfter ::
  "('a order_data_scheme \<Rightarrow> string) \<Rightarrow> effect list \<Rightarrow> 'a order_data_scheme list
   \<Rightarrow> 'a order_data_scheme list" where
  "storeAfter key [] rows = rows"
| "storeAfter key (OrdersUpdate col k u # es) rows =
     storeAfter key es (map (\<lambda>r. if key r = k then applyUpdates u r else r) rows)"
| "storeAfter key (e # es) rows = storeAfter key es rows"

section \<open>components/OrderForm.tsx: submission\<close>

text \<open>
  A character is a code unit below 256. \<open>String.prototype.trim\<close> removes white space
  and line terminators at both ends.
\<close>

definition isWhiteSpace :: "char \<Rightarrow> bool" where
  "isWhiteSpace c = ((of_char c :: nat) \<in> {9, 10, 11, 12, 13, 32, 160})"

definition trim :: "string \<Rightarrow> string" where
  "trim s = rev (dropWhile isWhiteSpace (rev (dropWhile isWhiteSpace s)))"

record form_state =
  isSubmitting :: bool
  isSuccess :: bool
  orderId :: string
  trackingToken :: string
  agreedToTerms :: bool
  formData :: form_data
  availableOrderTypes :: "option_item list"
  isWeekend :: bool

text \<open>The row that the form inserts into the table \<open>orders\<close>.\<close>

record order_insert =
  ins_customer_name :: string
  ins_food_type :: string
  ins_number_of_packs :: number
  ins_order_type :: string
  ins_delivery_method :: string
  ins_deliver_to_me :: bool
  ins_delivery_address :: "string option"
  ins_pickup_location :: string
  ins_payment_method :: string
  ins_subtotal :: number
  ins_rush_fee :: number
  ins_delivery_fee :: number
  ins_total_amount :: number
  ins_order_status :: string
  ins_payment_status :: string

record insert_reply =
  reply_order_id :: string
  reply_tracking_token :: string

text \<open>The entry that the form keeps in local storage for each order placed.\<close>

record stored_order =
  st_order_id :: string
  st_tracking_token :: string
  st_customer_name :: string
  st_food_type :: string
  st_status :: string
  st_created_at :: string

datatype form_effect =
    PreventDefault
  | FormToast toast
  | OrdersInsert order_insert
  | SetItemOrders "stored_order list"
  | SetItemLastOrderToken string

text \<open>
  The replies to the form: the reply of the order store to the insert, the list read
  from local storage under \<open>orders\<close> (or the message of the error that reading it
  throws), and the time stamp of \<open>new Date().toISOString()\<close>.
\<close>

record form_env =
  insert_response :: "insert_reply response"
  existingOrders :: "string + stored_order list"
  nowISO :: string

definition mountEffect :: "jsdate \<Rightarrow> form_state \<Rightarrow> form_state" where
  "mountEffect today st =
     (let e = orderTypesEffect today
      in st\<lparr>isWeekend := weekend e, availableOrderTypes := types e,
             formData := (formData st)\<lparr>orderType := defaultType e\<rparr>\<rparr>)"

definition handlePacksChange :: "number \<Rightarrow> form_state \<Rightarrow> form_state" where
  "handlePacksChange delta st =
     st\<lparr>formData := (formData st)\<lparr>packs := max 1 (min 20 (packs (formData st) + delta))\<rparr>\<rparr>"

definition destructive :: "string \<Rightarrow> string \<Rightarrow> form_effect" where
  "destructive t d = FormToast \<lparr>title = t, description = d, variant = Destructive\<rparr>"

definition orderRow :: "form_data \<Rightarrow> order_insert" where
  "orderRow fd =
     \<lparr>ins_customer_name = name fd,
      ins_food_type = foodType fd,
      ins_number_of_packs = packs fd,
      ins_order_type = orderType fd,
      ins_delivery_method = (if deliverToMe fd then ''delivery'' else ''pickup''),
      ins_deliver_to_me = deliverToMe fd,
      ins_delivery_address = (if deliverToMe fd then Some (deliveryAddress fd) else None),
      ins_pickup_location = pickupLocation fd,
      ins_payment_method = paymentMethod fd,
      ins_subtotal = subtotal fd,
      ins_rush_fee = rushFee fd,
      ins_delivery_fee = deliveryFee fd,
      ins_total_amount = total_price fd,
      ins_order_status = ''pending'',
      ins_payment_status = ''awaiting confirmation''\<rparr>"

definition orderFailed :: "string \<Rightarrow> form_effect" where
  "orderFailed msg =
     destructive ''Order failed''
       (if msg \<noteq> [] then msg
        else ''There was an error placing your order. Please try again.'')"

text \<open>
  \<open>handleSubmit\<close>. The title of the success notification ends in an emoji, which is
  left out here; its description is the text of its two paragraphs.
\<close>

definition handleSubmit :: "form_env \<Rightarrow> form_state \<Rightarrow> form_state \<times> form_effect list" where
  "handleSubmit env st =
     (let fd = formData st in
      if \<not> agreedToTerms st then
        (st, [PreventDefault,
              destructive ''Agreement Required''
                ''You must agree to the terms and conditions to place an order.''])
      else if trim (name fd) = [] then
        (st, [PreventDefault, destructive ''Missing information'' ''Please enter your name.''])
      else if foodType fd = [] then
        (st, [PreventDefault, destructive ''Missing information'' ''Please select a food type.''])
      else if orderType fd = [] then
        (st, [PreventDefault, destructive ''Missing information'' ''Please select an order type.''])
      else if deliverToMe fd \<and> trim (deliveryAddress fd) = [] then
        (st, [PreventDefault,
              destructive ''Delivery address required'' ''Please enter your delivery address.''])
      else
        (let st1 = st\<lparr>isSubmitting := True\<rparr>;
             request = OrdersInsert (orderRow fd)
         in case insert_response env of
              RemoteError msg \<Rightarrow>
                (st1\<lparr>isSubmitting := False\<rparr>, [PreventDefault, request, orderFailed msg])
            | RemoteData data \<Rightarrow>
                (let st2 = st1\<lparr>orderId := reply_order_id data,
                               trackingToken := reply_tracking_token data\<rparr>;
                     orderData = \<lparr>st_order_id = reply_order_id data,
                                  st_tracking_token = reply_tracking_token data,
                                  st_customer_name = name fd,
                                  st_food_type = foodType fd,
                                  st_status = ''pending'',
                                  st_created_at = nowISO env\<rparr>
                 in case existingOrders env of
                      Inl msg \<Rightarrow>
                        (st2\<lparr>isSubmitting := False\<rparr>, [PreventDefault, request, orderFailed msg])
                    | Inr existing \<Rightarrow>
                        (st2\<lparr>isSubmitting := False, isSuccess := True\<rparr>,
                         [PreventDefault, request,
                          SetItemOrders (orderData # existing),
                          SetItemLastOrderToken (reply_tracking_token data),
                          FormToast \<lparr>title = ''Order confirmed!'',
                            description = ''Your order has been placed successfully. Save your tracking token to check status later!'',
                            variant = Default\<rparr>]))))"

text \<open>
  The texts about a missing input that the form itself renders, with the element they
  stand next to: the hint under the submit button while the terms are not agreed. No
  other element of the form depends on a failed submission.
\<close>

definition inlineMessages :: "form_state \<Rightarrow> (string \<times> string) list" where
  "inlineMessages st =
     (if \<not> agreedToTerms st
      then [(''submit'', ''You must agree to the terms and conditions to place your order.'')]
      else [])"

definition submitDisabled :: "form_state \<Rightarrow> bool" where
  "submitDisabled st =
     (isSubmitting st \<or> isSuccess st \<or> total_price (formData st) = 0 \<or> \<not> agreedToTerms st)"

text \<open>A required input is missing, in the words of the specification.\<close>

definition missingInput :: "form_state \<Rightarrow> bool" where
  "missingInput st =
     (\<not> agreedToTerms st \<or> trim (name (formData st)) = [] \<or> foodType (formData st) = []
      \<or> orderType (formData st) = []
      \<or> (deliverToMe (formData st) \<and> trim (deliveryAddress (formData st)) = []))"

section \<open>Sample inputs\<close>

text \<open>
  Concrete inputs for the instances evaluated below. \<open>parseISODate\<close> reads the calendar
  date at the start of a timestamp \<open>YYYY-MM-DD...\<close>: it is \<open>parseISO\<close> for a timestamp
  written in the browser's own time zone.
\<close>

definition parseISODate :: "string \<Rightarrow> jsdate" where
  "parseISODate s =
     \<lparr>year = int (indexValue (take 4 s)),
      month = int (indexValue (take 2 (drop 5 s))) - 1,
      date = int (indexValue (take 2 (drop 8 s)))\<rparr>"

definition sampleOrder ::
  "string \<Rightarrow> string \<Rightarrow> string \<Rightarrow> number \<Rightarrow> string \<Rightarrow> number \<Rightarrow> content_order" where
  "sampleOrder oid ts ft n dm amt =
     \<lparr>created_at = ts, customer_name = ''Ama'', food_type = ft, number_of_packs = n,
      order_type = ''pre-order'', delivery_method = dm, delivery_address = None,
      total_amount = amt, order_status = ''pending'',
      payment_status = ''awaiting confirmation'', order_id = oid\<rparr>"

definition samplePageOrder :: "string \<Rightarrow> string \<Rightarrow> page_order" where
  "samplePageOrder oid status =
     \<lparr>created_at = ''2026-11-03T10:00:00'', customer_name = ''Ama'', food_type = ''fried-rice'',
      number_of_packs = 1, order_type = ''pre-order'', delivery_method = ''pickup'',
      delivery_address = None, total_amount = 25, order_status = status,
      payment_status = ''awaiting_confirmation'', id_of = oid, pickup_location = Some ''Brampton'',
      order_subtotal = 25, rush_fee = 0, delivery_fee = 0, tracking_token = ''tok-1'',
      order_notes = None\<rparr>"

definition samplePaidPageOrder :: "string \<Rightarrow> string \<Rightarrow> page_order" where
  "samplePaidPageOrder oid status = (samplePageOrder oid status)\<lparr>payment_status := ''paid''\<rparr>"

definition sampleDashboard :: "'o list \<Rightarrow> 'o option \<Rightarrow> action_type option \<Rightarrow> 'o dashboard_state" where
  "sampleDashboard rows sel a =
     \<lparr>orders = rows, analytics = calculateAnalytics parseISODate ([] :: order_data list),
      loading = False, dateRange = ''week'', customStartDate = [], customEndDate = [],
      selectedOrder = sel, actionType = a\<rparr>"

definition sampleEnv :: "'o list \<Rightarrow> 'o remote_env" where
  "sampleEnv rows =
     \<lparr>now = \<lparr>year = 2026, month = 10, date = 3\<rparr>, parseISO = parseISODate,
      update_response = RemoteData (), select_response = RemoteData (Some rows)\<rparr>"

definition sampleForm :: "bool \<Rightarrow> string \<Rightarrow> string \<Rightarrow> form_state" where
  "sampleForm agreed nm ft =
     \<lparr>isSubmitting = False, isSuccess = False, orderId = [], trackingToken = [],
      agreedToTerms = agreed,
      formData = \<lparr>name = nm, foodType = ft, packs = 2, orderType = ''same-day'',
        pickupLocation = ''Brampton'', deliverToMe = True, deliveryAddress = ''1 Main St'',
        paymentMethod = ''e-transfer''\<rparr>,
      availableOrderTypes = filter (\<lambda>t. opt_value t = ''same-day'') baseOrderTypes,
      isWeekend = True\<rparr>"

definition sampleFormEnv :: form_env where
  "sampleFormEnv =
     \<lparr>insert_response = RemoteData \<lparr>reply_order_id = ''o-1'', reply_tracking_token = ''tok-1''\<rparr>,
      existingOrders = Inr [], nowISO = ''2026-11-07T18:30:00.000Z''\<rparr>"

section \<open>Price computation\<close>

lemma foodTypes_values: "map value_of foodTypes = [''fried-rice'', ''noodles-chicken'', ''noodles-no-chicken'']"
  by (simp add: foodTypes_def)

lemma find_distinct_key:
  "distinct (map k xs) \<Longrightarrow> x \<in> set xs \<Longrightarrow> find (\<lambda>y. k y = k x) xs = Some x"
  by (induction xs) (auto simp: image_iff)

lemma find_no_key: "v \<notin> k ` set xs \<Longrightarrow> find (\<lambda>y. k y = v) xs = None"
  by (induction xs) auto

text \<open>
  C1. For every form content, the unit price is the catalog price of the item whose
  identifier is selected, and 0 when no catalog entry has that identifier; the subtotal
  is unit price times pack count; the rush fee is 5 for order type same-day and 0
  otherwise; the delivery fee is 8 when the delivery flag is set and 0 otherwise; the
  total is the sum of the three.
\<close>

theorem price_breakdown:
  "(\<forall>f \<in> set foodTypes. value_of f = foodType fd \<longrightarrow> basePricePerPack fd = price f)
   \<and> (foodType fd \<notin> value_of ` set foodTypes \<longrightarrow> basePricePerPack fd = 0)
   \<and> subtotal fd = basePricePerPack fd * packs fd
   \<and> rushFee fd = (if orderType fd = ''same-day'' then 5 else 0)
   \<and> deliveryFee fd = (if deliverToMe fd then 8 else 0)
   \<and> total_price fd = subtotal fd + rushFee fd + deliveryFee fd"
proof -
  have d: "distinct (map value_of foodTypes)"
    by (simp add: foodTypes_values)
  have "basePricePerPack fd = price f" if "f \<in> set foodTypes" "value_of f = foodType fd" for f
    using find_distinct_key [OF d that(1)] that(2)
    by (simp add: basePricePerPack_def selectedFood_def)
  moreover have "basePricePerPack fd = 0" if "foodType fd \<notin> value_of ` set foodTypes"
    using find_no_key [OF that] by (simp add: basePricePerPack_def selectedFood_def)
  ultimately show ?thesis
    by (simp add: subtotal_def rushFee_def deliveryFee_def total_price_def)
qed

theorem price_breakdown_witness:
  "basePricePerPack \<lparr>name = ''Ama'', foodType = ''fried-rice'', packs = 2, orderType = ''same-day'',
       pickupLocation = ''Brampton'', deliverToMe = True, deliveryAddress = ''1 Main St'',
       paymentMethod = ''e-transfer''\<rparr> = 25
   \<and> total_price \<lparr>name = ''Ama'', foodType = ''fried-rice'', packs = 2, orderType = ''same-day'',
       pickupLocation = ''Brampton'', deliverToMe = True, deliveryAddress = ''1 Main St'',
       paymentMethod = ''e-transfer''\<rparr> = 63
   \<and> basePricePerPack \<lparr>name = ''Ama'', foodType = ''jollof'', packs = 2, orderType = ''same-day'',
       pickupLocation = ''Brampton'', deliverToMe = True, deliveryAddress = ''1 Main St'',
       paymentMethod = ''e-transfer''\<rparr> = 0"
  using
    price_breakdown [of "\<lparr>name = ''Ama'', foodType = ''fried-rice'', packs = 2, orderType = ''same-day'',
       pickupLocation = ''Brampton'', deliverToMe = True, deliveryAddress = ''1 Main St'',
       paymentMethod = ''e-transfer''\<rparr>"]
    price_breakdown [of "\<lparr>name = ''Ama'', foodType = ''jollof'', packs = 2, orderType = ''same-day'',
       pickupLocation = ''Brampton'', deliverToMe = True, deliveryAddress = ''1 Main St'',
       paymentMethod = ''e-transfer''\<rparr>"]
  by (simp add: foodTypes_def)

section \<open>Analytics: the reductions\<close>

lemma firstSeen_snoc:
  "firstSeen (xs @ [x]) = (if x \<in> set xs then firstSeen xs else firstSeen xs @ [x])"
  by (simp add: firstSeen_def)

lemma set_firstSeen: "set (firstSeen xs) = set xs"
  by (simp add: firstSeen_def)

lemma distinct_firstSeen: "distinct (firstSeen xs)"
  by (simp add: firstSeen_def)

lemma firstSeen_Nil: "firstSeen [] = []"
  by (simp add: firstSeen_def)

lemma map_entry_keyed:
  "distinct ks \<Longrightarrow>
   AList.map_entry k f (map (\<lambda>n. (n, g n)) ks) = map (\<lambda>n. (n, if n = k then f (g n) else g n)) ks"
proof (induction ks)
  case Nil
  then show ?case by simp
next
  case (Cons a ks)
  show ?case
  proof (cases "a = k")
    case True
    with Cons.prems have "k \<notin> set ks" by simp
    then have "map (\<lambda>n. (n, if n = k then f (g n) else g n)) ks = map (\<lambda>n. (n, g n)) ks"
      by (intro map_cong) auto
    with True show ?thesis by simp
  next
    case False
    with Cons show ?thesis by simp
  qed
qed

lemma map_of_keyed: "map_of (map (\<lambda>n. (n, g n)) ks) k = (if k \<in> set ks then Some (g k) else None)"
  by (induction ks) auto

lemma sort_key_map: "sort_key f (map h xs) = map h (sort_key (\<lambda>x. f (h x)) xs)"
proof (induction xs)
  case Nil
  then show ?case by simp
next
  case (Cons x xs)
  have ins: "insort_key f (h x) (map h ys) = map h (insort_key (\<lambda>x. f (h x)) x ys)" for ys
    by (induction ys) auto
  from Cons show ?case by (simp add: ins)
qed

lemma foodStats_fold:
  "foldl foodStatsStep [] os = map (\<lambda>n. (n, statsOf os n)) (firstSeen (map foodName os))"
proof (induction os rule: rev_induct)
  case Nil
  then show ?case by (simp add: firstSeen_Nil)
next
  case (snoc x os)
  let ?ks = "firstSeen (map foodName os)"
  let ?k = "foodName x"
  have d: "distinct ?ks" by (rule distinct_firstSeen)
  have s: "set ?ks = foodName ` set os" by (simp add: set_firstSeen)
  show ?case
  proof (cases "?k \<in> foodName ` set os")
    case True
    then have kin: "?k \<in> set ?ks" using s by simp
    have "foodStatsStep (map (\<lambda>n. (n, statsOf os n)) ?ks) x
        = map (\<lambda>n. (n, statsOf (os @ [x]) n)) ?ks"
      using kin unfolding foodStatsStep_def Let_def
      by (simp add: map_of_keyed map_entry_keyed [OF d] statsOf_def)
    with True snoc show ?thesis by (simp add: firstSeen_snoc)
  next
    case False
    then have kout: "?k \<notin> set ?ks" using s by simp
    define f1 where "f1 = (\<lambda>s::food_stats. s\<lparr>count := count s + number_of_packs x\<rparr>)"
    define f2 where "f2 = (\<lambda>s::food_stats. s\<lparr>revenue := revenue s + total_amount x\<rparr>)"
    define g0 where "g0 = (\<lambda>n. if n = ?k then \<lparr>count = 0, revenue = 0\<rparr> else statsOf os n)"
    define g1 where "g1 = (\<lambda>n. if n = ?k then f1 (g0 n) else g0 n)"
    define g2 where "g2 = (\<lambda>n. if n = ?k then f2 (g1 n) else g1 n)"
    have e: "map (\<lambda>n. (n, statsOf os n)) ?ks @ [(?k, \<lparr>count = 0, revenue = 0\<rparr>)]
        = map (\<lambda>n. (n, g0 n)) (?ks @ [?k])"
      using kout by (auto simp: g0_def intro: map_cong)
    have d': "distinct (?ks @ [?k])" using d kout by simp
    have z: "statsOf os ?k = \<lparr>count = 0, revenue = 0\<rparr>"
    proof -
      have "\<forall>y \<in> set os. foodName y \<noteq> ?k" using False by (metis image_eqI)
      then have "filter (\<lambda>y. foodName y = ?k) os = []" by (simp add: filter_empty_conv)
      then show ?thesis by (simp add: statsOf_def)
    qed
    have "foodStatsStep (map (\<lambda>n. (n, statsOf os n)) ?ks) x
        = AList.map_entry ?k f2 (AList.map_entry ?k f1
            (map (\<lambda>n. (n, statsOf os n)) ?ks @ [(?k, \<lparr>count = 0, revenue = 0\<rparr>)]))"
      using kout by (simp add: foodStatsStep_def Let_def map_of_keyed f1_def f2_def)
    also have "\<dots> = AList.map_entry ?k f2 (map (\<lambda>n. (n, g1 n)) (?ks @ [?k]))"
      unfolding e g1_def by (simp only: map_entry_keyed [OF d'])
    also have "\<dots> = map (\<lambda>n. (n, g2 n)) (?ks @ [?k])"
      unfolding g2_def by (simp only: map_entry_keyed [OF d'])
    also have "\<dots> = map (\<lambda>n. (n, statsOf (os @ [x]) n)) (?ks @ [?k])"
    proof (rule map_cong [OF refl])
      fix n
      show "(n, g2 n) = (n, statsOf (os @ [x]) n)"
      proof (cases "n = ?k")
        case True
        then show ?thesis using z by (simp add: g2_def g1_def g0_def f1_def f2_def statsOf_def)
      next
        case False
        then show ?thesis by (simp add: g2_def g1_def g0_def statsOf_def)
      qed
    qed
    finally have "foodStatsStep (map (\<lambda>n. (n, statsOf os n)) ?ks) x
        = map (\<lambda>n. (n, statsOf (os @ [x]) n)) (?ks @ [?k])" .
    with False snoc show ?thesis by (simp add: firstSeen_snoc)
  qed
qed

lemma objectEntries_keyed:
  "objectEntries (map (\<lambda>n. (n, g n)) ks) = map (\<lambda>n. (n, g n)) (propertyOrder ks)"
  by (simp add: objectEntries_def propertyOrder_def filter_map sort_key_map comp_def)

lemma topItems_eq:
  "topItems os = take 5 (sort_key (\<lambda>a. - item_count a)
       (map (groupItem os) (propertyOrder (firstSeen (map foodName os)))))"
  by (simp add: topItems_def foodStats_fold objectEntries_keyed comp_def groupItem_def [abs_def] statsOf_def)

lemma propertyOrder_plain: "\<forall>k \<in> set ks. \<not> isArrayIndex k \<Longrightarrow> propertyOrder ks = ks"
  by (simp add: propertyOrder_def filter_empty_conv filter_id_conv)

lemma inheritedKeyText_cases:
  "inheritedKeyText k = Some t \<Longrightarrow> \<not> isArrayIndex k \<and> \<not> isArrayIndex t"
  by (auto simp: inheritedKeyText_def objectPrototypeFunctions_def nativeFunctionText_def
      isArrayIndex_def isDigit_def split: if_splits)

lemma inheritedKeyText_range:
  "inheritedKeyText k = Some t \<Longrightarrow>
   t \<in> set (''[object Object]'' # map (\<lambda>p. nativeFunctionText (snd p)) objectPrototypeFunctions)"
proof (cases "k = ''__proto__''")
  case True
  moreover assume "inheritedKeyText k = Some t"
  ultimately show ?thesis by (simp add: inheritedKeyText_def)
next
  case False
  moreover assume "inheritedKeyText k = Some t"
  ultimately obtain f where "map_of objectPrototypeFunctions k = Some f" "t = nativeFunctionText f"
    by (auto simp: inheritedKeyText_def)
  then have "(k, f) \<in> set objectPrototypeFunctions" by (simp add: map_of_SomeD)
  with \<open>t = nativeFunctionText f\<close> show ?thesis by force
qed

lemma memberText_not_inherited:
  "\<forall>t \<in> set (''[object Object]'' # map (\<lambda>p. nativeFunctionText (snd p)) objectPrototypeFunctions).
     inheritedKeyText t = None"
  by (simp add: objectPrototypeFunctions_def nativeFunctionText_def inheritedKeyText_def)

lemma label_not_inherited:
  "\<forall>p \<in> set foodTypeLabels. snd p \<noteq> [] \<and> inheritedKeyText (snd p) = None"
  by (simp add: foodTypeLabels_def inheritedKeyText_def objectPrototypeFunctions_def)

lemma foodName_not_inherited: "inheritedKeyText (foodName x) = None"
proof (cases "map_of foodTypeLabels (food_type x)")
  case None
  show ?thesis
  proof (cases "inheritedKeyText (food_type x)")
    case None
    with \<open>map_of foodTypeLabels (food_type x) = None\<close> show ?thesis
      by (simp add: foodName_def)
  next
    case (Some t)
    then have "inheritedKeyText t = None"
      using inheritedKeyText_range [of "food_type x" t] memberText_not_inherited by blast
    with Some \<open>map_of foodTypeLabels (food_type x) = None\<close> show ?thesis
      by (simp add: foodName_def)
  qed
next
  case (Some l)
  then have "(food_type x, l) \<in> set foodTypeLabels" by (simp add: map_of_SomeD)
  then have "l \<noteq> [] \<and> inheritedKeyText l = None"
    using label_not_inherited by force
  with Some show ?thesis by (simp add: foodName_def)
qed

lemma isArrayIndex_foodName: "isArrayIndex (foodName x) = isArrayIndex (food_type x)"
proof (cases "map_of foodTypeLabels (food_type x)")
  case None
  then show ?thesis
    using inheritedKeyText_cases [of "food_type x"]
    by (auto simp: foodName_def split: option.splits)
next
  case (Some l)
  then show ?thesis
    by (auto simp: foodName_def foodTypeLabels_def isArrayIndex_def isDigit_def
        split: if_splits)
qed


lemma find_dayGroup:
  "find (\<lambda>e. day e = d) (map (dayGroup P os) ks) = (if d \<in> set ks then Some (dayGroup P os d) else None)"
  by (induction ks) (auto simp: dayGroup_def)

lemma updateFirst_keyed:
  "distinct ks \<Longrightarrow> (\<And>n. day (g n) = n) \<Longrightarrow>
   updateFirst (\<lambda>e. day e = k) f (map g ks) = map (\<lambda>n. if n = k then f (g n) else g n) ks"
proof (induction ks)
  case Nil
  then show ?case by simp
next
  case (Cons a ks)
  show ?case
  proof (cases "a = k")
    case True
    with Cons.prems have "k \<notin> set ks" by simp
    then have "map (\<lambda>n. if n = k then f (g n) else g n) ks = map g ks"
      by (intro map_cong) auto
    with True Cons.prems show ?thesis by simp
  next
    case False
    with Cons show ?thesis by simp
  qed
qed

lemma revenue_fold:
  "foldl (revenueStep P) [] os
     = map (dayGroup P os) (firstSeen (map (\<lambda>x. formatEEE (P (created_at x))) os))"
proof (induction os rule: rev_induct)
  case Nil
  then show ?case by (simp add: firstSeen_Nil)
next
  case (snoc x os)
  let ?dayOf = "\<lambda>x. formatEEE (P (created_at x))"
  let ?ks = "firstSeen (map ?dayOf os)"
  let ?k = "?dayOf x"
  have d: "distinct ?ks" by (rule distinct_firstSeen)
  have s: "set ?ks = ?dayOf ` set os" by (simp add: set_firstSeen)
  have dk: "\<And>n. day (dayGroup P os n) = n" by (simp add: dayGroup_def)
  show ?case
  proof (cases "?k \<in> ?dayOf ` set os")
    case True
    then have kin: "?k \<in> set ?ks" using s by simp
    have "revenueStep P (map (dayGroup P os) ?ks) x
        = map (\<lambda>n. if n = ?k
                     then (dayGroup P os n)\<lparr>day_revenue := day_revenue (dayGroup P os n) + total_amount x,
                            day_orders := day_orders (dayGroup P os n) + 1\<rparr>
                     else dayGroup P os n) ?ks"
      using kin by (simp add: revenueStep_def Let_def find_dayGroup updateFirst_keyed [OF d dk])
    also have "\<dots> = map (dayGroup P (os @ [x])) ?ks"
      by (rule map_cong [OF refl]) (simp add: dayGroup_def)
    finally show ?thesis using True snoc by (simp add: firstSeen_snoc)
  next
    case False
    then have kout: "?k \<notin> set ?ks" using s by simp
    have "\<forall>y \<in> set os. ?dayOf y \<noteq> ?k" using False by (metis (mono_tags, lifting) image_eqI)
    then have emp: "filter (\<lambda>y. ?dayOf y = ?k) os = []" by (simp add: filter_empty_conv)
    have "revenueStep P (map (dayGroup P os) ?ks) x
        = map (dayGroup P os) ?ks @ [\<lparr>day = ?k, day_revenue = total_amount x, day_orders = 1\<rparr>]"
      using kout by (simp add: revenueStep_def Let_def find_dayGroup)
    also have "\<dots> = map (dayGroup P (os @ [x])) (?ks @ [?k])"
    proof -
      have "map (dayGroup P os) ?ks = map (dayGroup P (os @ [x])) ?ks"
        using kout by (intro map_cong [OF refl]) (auto simp: dayGroup_def)
      moreover have "dayGroup P (os @ [x]) ?k = \<lparr>day = ?k, day_revenue = total_amount x, day_orders = 1\<rparr>"
        using emp by (simp add: dayGroup_def)
      ultimately show ?thesis by simp
    qed
    finally show ?thesis using False snoc by (simp add: firstSeen_snoc)
  qed
qed

lemma dayGroup_absent:
  "d \<notin> (\<lambda>x. formatEEE (P (created_at x))) ` set os
   \<Longrightarrow> dayGroup P os d = \<lparr>day = d, day_revenue = 0, day_orders = 0\<rparr>"
proof -
  assume a: "d \<notin> (\<lambda>x. formatEEE (P (created_at x))) ` set os"
  have "\<forall>y \<in> set os. formatEEE (P (created_at y)) \<noteq> d" using a by (metis (mono_tags, lifting) image_eqI)
  then have "filter (\<lambda>y. formatEEE (P (created_at y)) = d) os = []" by (simp add: filter_empty_conv)
  then show ?thesis by (simp add: dayGroup_def)
qed

lemma completeRevenueByDay_eq:
  "completeRevenueByDay P os = map (dayGroup P os) daysOfWeek"
  unfolding completeRevenueByDay_def Let_def revenue_fold find_dayGroup
  by (rule map_cong [OF refl]) (simp add: set_firstSeen dayGroup_absent)

lemma foldl_plus_sum_list: "foldl (\<lambda>acc x. acc + f x) (a::rat) xs = a + sum_list (map f xs)"
  by (induction xs arbitrary: a) (simp_all add: add.assoc)


lemma getDay_range: "0 \<le> getDay d \<and> getDay d < 7"
  by (simp add: getDay_def)

lemma formatEEE_cases:
  "(formatEEE d = ''Sun'') = (getDay d = 0)"
  "(formatEEE d = ''Mon'') = (getDay d = 1)"
  "(formatEEE d = ''Tue'') = (getDay d = 2)"
  "(formatEEE d = ''Wed'') = (getDay d = 3)"
  "(formatEEE d = ''Thu'') = (getDay d = 4)"
  "(formatEEE d = ''Fri'') = (getDay d = 5)"
  "(formatEEE d = ''Sat'') = (getDay d = 6)"
proof -
  have "getDay d = 0 \<or> getDay d = 1 \<or> getDay d = 2 \<or> getDay d = 3 \<or> getDay d = 4
      \<or> getDay d = 5 \<or> getDay d = 6"
    using getDay_range [of d] by arith
  then show
    "(formatEEE d = ''Sun'') = (getDay d = 0)"
    "(formatEEE d = ''Mon'') = (getDay d = 1)"
    "(formatEEE d = ''Tue'') = (getDay d = 2)"
    "(formatEEE d = ''Wed'') = (getDay d = 3)"
    "(formatEEE d = ''Thu'') = (getDay d = 4)"
    "(formatEEE d = ''Fri'') = (getDay d = 5)"
    "(formatEEE d = ''Sat'') = (getDay d = 6)"
    by (auto simp: formatEEE_def)
qed

lemma sampleOrder_fields:
  "created_at (sampleOrder oid ts ft n dm amt) = ts"
  "food_type (sampleOrder oid ts ft n dm amt) = ft"
  "number_of_packs (sampleOrder oid ts ft n dm amt) = n"
  "delivery_method (sampleOrder oid ts ft n dm amt) = dm"
  "total_amount (sampleOrder oid ts ft n dm amt) = amt"
  "order_status (sampleOrder oid ts ft n dm amt) = ''pending''"
  "payment_status (sampleOrder oid ts ft n dm amt) = ''awaiting confirmation''"
  "order_id (sampleOrder oid ts ft n dm amt) = oid"
  by (simp_all add: sampleOrder_def)

lemma parseISODate_samples:
  "parseISODate ''2026-11-03T10:00:00'' = \<lparr>year = 2026, month = 10, date = 3\<rparr>"
  "parseISODate ''2026-11-07T18:30:00'' = \<lparr>year = 2026, month = 10, date = 7\<rparr>"
  by (simp_all add: parseISODate_def indexValue_def)

lemma getDay_samples:
  "getDay \<lparr>year = 2026, month = 10, date = 7\<rparr> = 6"
  "getDay \<lparr>year = 2026, month = 10, date = 3\<rparr> = 2"
  by (simp_all add: getDay_def Day_def DayFromYear_def monthStart_def InLeapYear_def)

section \<open>Calendar: day numbers and steps\<close>

lemma div_succ:
  fixes k c :: int
  assumes "1 < c"
  shows "(k + 1) div c = k div c + (if (k + 1) mod c = 0 then 1 else 0)"
proof -
  have r: "0 \<le> k mod c" "k mod c < c" using assms by simp_all
  have d: "(k + 1) div c = k div c + (k mod c + 1) div c"
    using assms by (simp add: div_add1_eq [of k 1 c])
  have m: "(k + 1) mod c = (k mod c + 1) mod c"
    by (simp add: mod_add_left_eq)
  show ?thesis
  proof (cases "k mod c + 1 = c")
    case True
    then show ?thesis using d m assms by simp
  next
    case False
    with r have "k mod c + 1 < c" by simp
    then show ?thesis using d m r by simp
  qed
qed

lemma mod_shift: "(y + q * c) mod c = y mod c" for y q c :: int
  by simp

lemma DayFromYear_Suc: "DayFromYear (y + 1) = DayFromYear y + 365 + (if InLeapYear y then 1 else 0)"
proof -
  have a: "(y + 1 - 1969) div 4 = (y - 1969) div 4 + (if y mod 4 = 0 then 1 else 0)"
    using div_succ [of 4 "y - 1969"] mod_shift [of y "- 492" 4] by simp
  have b: "(y + 1 - 1901) div 100 = (y - 1901) div 100 + (if y mod 100 = 0 then 1 else 0)"
    using div_succ [of 100 "y - 1901"] mod_shift [of y "- 19" 100] by simp
  have c: "(y + 1 - 1601) div 400 = (y - 1601) div 400 + (if y mod 400 = 0 then 1 else 0)"
    using div_succ [of 400 "y - 1601"] mod_shift [of y "- 4" 400] by simp
  have e1: "y mod 100 = 0" if "y mod 400 = 0"
    using mod_mod_cancel [of 100 400 y] that by simp
  have e2: "y mod 4 = 0" if "y mod 100 = 0"
    using mod_mod_cancel [of 4 100 y] that by simp
  show ?thesis
    unfolding DayFromYear_def InLeapYear_def a b c using e1 e2 by auto
qed

lemma month_cases:
  "0 \<le> m \<Longrightarrow> m \<le> 11 \<Longrightarrow>
   m = 0 \<or> m = 1 \<or> m = 2 \<or> m = 3 \<or> m = 4 \<or> m = 5 \<or> m = 6 \<or> m = 7 \<or> m = 8
   \<or> m = 9 \<or> m = 10 \<or> m = (11::int)"
  by arith

lemma monthStart_next:
  "0 \<le> m \<Longrightarrow> m < 11 \<Longrightarrow> monthStart y (m + 1) = monthStart y m + daysInMonth y m"
  using month_cases [of m] by (auto simp: monthStart_def daysInMonth_def Let_def)

lemma daysInMonth_pos: "1 \<le> daysInMonth y m"
  by (simp add: daysInMonth_def)

lemma Day_nextDay: "valid_date d \<Longrightarrow> Day (nextDay d) = Day d + 1"
proof -
  assume v: "valid_date d"
  show ?thesis
  proof (cases "date d < daysInMonth (year d) (month d)")
    case True
    then show ?thesis by (simp add: nextDay_def Day_def)
  next
    case False
    with v have dl: "date d = daysInMonth (year d) (month d)" by (simp add: valid_date_def)
    show ?thesis
    proof (cases "month d < 11")
      case True
      with v have "monthStart (year d) (month d + 1)
          = monthStart (year d) (month d) + daysInMonth (year d) (month d)"
        by (intro monthStart_next) (simp_all add: valid_date_def)
      with True False dl show ?thesis by (simp add: nextDay_def Day_def)
    next
      case False
      with v have m: "month d = 11" by (simp add: valid_date_def)
      have "monthStart (year d) 11 + daysInMonth (year d) 11
          = 365 + (if InLeapYear (year d) then 1 else 0)"
        by (simp add: monthStart_def daysInMonth_def)
      with m dl show ?thesis
        by (simp add: nextDay_def Day_def DayFromYear_Suc monthStart_def)
    qed
  qed
qed

lemma valid_nextDay: "valid_date d \<Longrightarrow> valid_date (nextDay d)"
  using daysInMonth_pos [of "year d" "month d + 1"] daysInMonth_pos [of "year d + 1" 0]
  by (auto simp: valid_date_def nextDay_def)

lemma daysInMonth_Dec: "daysInMonth y 11 = 31"
  by (simp add: daysInMonth_def)

lemma prev_next: "valid_date d \<Longrightarrow> nextDay (prevDay d) = d"
proof -
  assume v: "valid_date d"
  show ?thesis
  proof (cases "1 < date d")
    case True
    with v show ?thesis by (simp add: valid_date_def nextDay_def prevDay_def)
  next
    case False
    with v have d1: "date d = 1" by (simp add: valid_date_def)
    show ?thesis
    proof (cases "0 < month d")
      case True
      with v d1 show ?thesis by (simp add: valid_date_def nextDay_def prevDay_def)
    next
      case False
      with v have "month d = 0" by (simp add: valid_date_def)
      with d1 show ?thesis by (simp add: nextDay_def prevDay_def daysInMonth_Dec)
    qed
  qed
qed

lemma valid_prevDay: "valid_date d \<Longrightarrow> valid_date (prevDay d)"
  using daysInMonth_pos [of "year d" "month d - 1"]
  by (auto simp: valid_date_def prevDay_def daysInMonth_def)

lemma Day_prevDay: "valid_date d \<Longrightarrow> Day (prevDay d) = Day d - 1"
  using Day_nextDay [OF valid_prevDay, of d] prev_next [of d] by simp

lemma funpow_nextDay:
  "valid_date d \<Longrightarrow> valid_date ((nextDay ^^ n) d) \<and> Day ((nextDay ^^ n) d) = Day d + int n"
  by (induction n) (simp_all add: valid_nextDay Day_nextDay)

lemma funpow_prevDay:
  "valid_date d \<Longrightarrow> valid_date ((prevDay ^^ n) d) \<and> Day ((prevDay ^^ n) d) = Day d - int n"
  by (induction n) (simp_all add: valid_prevDay Day_prevDay)

lemma addDays_Day: "valid_date d \<Longrightarrow> valid_date (addDays d k) \<and> Day (addDays d k) = Day d + k"
  using funpow_nextDay [of d "nat k"] funpow_prevDay [of d "nat (- k)"]
  by (simp add: addDays_def)

lemma setDate_Day:
  assumes "valid_date d"
  shows "valid_date (setDate d n) \<and> Day (setDate d n) = Day d - date d + n"
proof -
  from assms have m: "month d div 12 = 0" "month d mod 12 = month d"
    by (simp_all add: valid_date_def)
  let ?f = "\<lparr>year = year d, month = month d, date = 1\<rparr>"
  have v: "valid_date ?f"
    using assms daysInMonth_pos [of "year d" "month d"] by (simp add: valid_date_def)
  have "setDate d n = addDays ?f (n - 1)"
    by (simp add: setDate_def newDate_def m)
  moreover have "Day ?f = Day d - date d + 1" by (simp add: Day_def)
  ultimately show ?thesis using addDays_Day [OF v, of "n - 1"] by simp
qed

lemma startOfWeek_Monday:
  assumes "valid_date d"
  shows "valid_date (startOfWeek d 1) \<and> getDay (startOfWeek d 1) = 1
    \<and> Day (startOfWeek d 1) \<le> Day d \<and> Day d \<le> Day (startOfWeek d 1) + 6"
proof -
  define diff where "diff = (if getDay d < 1 then 7 else 0) + getDay d - 1"
  have s: "startOfWeek d 1 = setDate d (date d - diff)"
    by (simp add: startOfWeek_def Let_def diff_def)
  have D: "Day (startOfWeek d 1) = Day d - diff" and v: "valid_date (startOfWeek d 1)"
    using setDate_Day [OF assms, of "date d - diff"] s by simp_all
  have r: "0 \<le> getDay d" "getDay d < 7" using getDay_range [of d] by simp_all
  have "(Day d - diff + 4) mod 7 = ((Day d + 4) mod 7 - diff) mod 7"
    by (simp add: mod_diff_left_eq algebra_simps)
  also have "\<dots> = (getDay d - diff) mod 7" by (simp add: getDay_def)
  also have "\<dots> = 1" using r by (simp add: diff_def)
  finally have g: "getDay (startOfWeek d 1) = 1" by (simp add: getDay_def D)
  have "0 \<le> diff" "diff \<le> 6" using r by (simp_all add: diff_def)
  with D v g show ?thesis by simp
qed

lemma endOfWeek_Sunday:
  assumes "valid_date d"
  shows "valid_date (endOfWeek d 1) \<and> getDay (endOfWeek d 1) = 0
    \<and> Day (endOfWeek d 1) = Day (startOfWeek d 1) + 6"
proof -
  define diff where "diff = (if getDay d < 1 then - 7 else 0) + 6 - (getDay d - 1)"
  define diff' where "diff' = (if getDay d < 1 then 7 else 0) + getDay d - 1"
  have s: "endOfWeek d 1 = setDate d (date d + diff)"
    by (simp add: endOfWeek_def Let_def diff_def)
  have s': "startOfWeek d 1 = setDate d (date d - diff')"
    by (simp add: startOfWeek_def Let_def diff'_def)
  have D: "Day (endOfWeek d 1) = Day d + diff" and v: "valid_date (endOfWeek d 1)"
    using setDate_Day [OF assms, of "date d + diff"] s by simp_all
  have D': "Day (startOfWeek d 1) = Day d - diff'"
    using setDate_Day [OF assms, of "date d - diff'"] s' by simp
  have e: "diff = 6 - diff'" by (simp add: diff_def diff'_def)
  have "getDay (startOfWeek d 1) = 1" using startOfWeek_Monday [OF assms] by simp
  then have "(Day d - diff' + 4) mod 7 = 1" by (simp add: getDay_def D')
  then have "(Day d - diff' + 4 + 6) mod 7 = (1 + 6) mod 7" by (metis mod_add_left_eq)
  then have "getDay (endOfWeek d 1) = 0"
    by (simp add: getDay_def D e algebra_simps)
  with D D' e v show ?thesis by simp
qed

lemma month_bounds:
  assumes "valid_date d"
  shows "newDate (year d) (month d) 1 = \<lparr>year = year d, month = month d, date = 1\<rparr>
    \<and> newDate (year d) (month d + 1) 0
        = \<lparr>year = year d, month = month d, date = daysInMonth (year d) (month d)\<rparr>"
proof -
  from assms have m: "0 \<le> month d" "month d \<le> 11" by (simp_all add: valid_date_def)
  have a: "newDate (year d) (month d) 1 = \<lparr>year = year d, month = month d, date = 1\<rparr>"
    using m by (simp add: newDate_def addDays_def)
  have b: "newDate (year d) (month d + 1) 0
        = \<lparr>year = year d, month = month d, date = daysInMonth (year d) (month d)\<rparr>"
    using month_cases [OF m]
    by (auto simp: newDate_def addDays_def prevDay_def daysInMonth_def)
  from a b show ?thesis by simp
qed

text \<open>A valid date is determined by its day number.\<close>

lemma DayFromYear_less: "y < y' \<Longrightarrow> DayFromYear (y + 1) \<le> DayFromYear y'"
proof (induction y' rule: int_gr_induct)
  case base
  then show ?case by simp
next
  case (step i)
  then show ?case using DayFromYear_Suc [of i] by (simp split: if_splits)
qed

lemma monthStart_less_aux:
  "m < m' \<Longrightarrow> 0 \<le> m \<longrightarrow> m' \<le> 11 \<longrightarrow> monthStart y m + daysInMonth y m \<le> monthStart y m'"
proof (induction m' rule: int_gr_induct)
  case base
  then show ?case using monthStart_next [of m y] by simp
next
  case (step i)
  then show ?case using monthStart_next [of i y] daysInMonth_pos [of y i] by auto
qed

lemma monthStart_less:
  "0 \<le> m \<Longrightarrow> m < m' \<Longrightarrow> m' \<le> 11 \<Longrightarrow> monthStart y m + daysInMonth y m \<le> monthStart y m'"
  using monthStart_less_aux [of m m' y] by simp

lemma day_within_year:
  assumes "valid_date d"
  shows "0 \<le> monthStart (year d) (month d)"
    and "monthStart (year d) (month d) + daysInMonth (year d) (month d)
           \<le> 365 + (if InLeapYear (year d) then 1 else 0)"
proof -
  from assms have m: "0 \<le> month d" "month d \<le> 11" by (simp_all add: valid_date_def)
  show "0 \<le> monthStart (year d) (month d)"
    using month_cases [OF m] by (auto simp: monthStart_def)
  show "monthStart (year d) (month d) + daysInMonth (year d) (month d)
           \<le> 365 + (if InLeapYear (year d) then 1 else 0)"
    using month_cases [OF m] by (auto simp: monthStart_def daysInMonth_def)
qed

lemma Day_year_less:
  assumes "valid_date a" "valid_date b" "year a < year b"
  shows "Day a < Day b"
proof -
  have "Day a < DayFromYear (year a) + 365 + (if InLeapYear (year a) then 1 else 0)"
    using day_within_year(2) [OF assms(1)] assms(1) by (simp add: Day_def valid_date_def)
  also have "\<dots> = DayFromYear (year a + 1)" by (simp add: DayFromYear_Suc)
  also have "\<dots> \<le> DayFromYear (year b)" by (rule DayFromYear_less [OF assms(3)])
  also have "\<dots> \<le> Day b"
    using day_within_year(1) [OF assms(2)] assms(2) by (simp add: Day_def valid_date_def)
  finally show ?thesis .
qed

lemma Day_month_less:
  assumes "valid_date a" "valid_date b" "year a = year b" "month a < month b"
  shows "Day a < Day b"
proof -
  have "monthStart (year a) (month a) + daysInMonth (year a) (month a)
      \<le> monthStart (year a) (month b)"
    using assms by (intro monthStart_less) (simp_all add: valid_date_def)
  then show ?thesis using assms by (simp add: Day_def valid_date_def)
qed

lemma Day_inject:
  assumes "valid_date a" "valid_date b" "Day a = Day b"
  shows "a = b"
proof -
  have y: "year a = year b"
    using Day_year_less [OF assms(1,2)] Day_year_less [OF assms(2,1)] assms(3)
    by (cases "year a < year b"; cases "year b < year a") simp_all
  have m: "month a = month b"
    using Day_month_less [OF assms(1,2) y] Day_month_less [OF assms(2,1) y [symmetric]] assms(3)
    by (cases "month a < month b"; cases "month b < month a") simp_all
  have "date a = date b" using assms(3) y m by (simp add: Day_def)
  with y m show ?thesis by simp
qed

section \<open>Analytics: results\<close>

text \<open>
  C2. For every list of orders, \<open>topFoodItems\<close> groups the orders by resolved food name
  (the display label of a known identifier; for an identifier that names a member
  inherited from \<open>Object.prototype\<close>, the text of that member; the raw food-type
  identifier otherwise), sums pack counts and revenue per group, sorts the groups by
  descending summed pack count and keeps at most 5. Ties on pack count keep the order in
  which \<open>Object.entries\<close> lists the names: the names that are array indices first, in
  ascending numeric order, then the other names in the order in which the input first
  shows them. When no food-type identifier is an array index, this is the order first
  encountered, which is the tie break of the specification.
\<close>

theorem topFoodItems_grouping:
  "topFoodItems (calculateAnalytics P os) =
     take 5 (sort_key (\<lambda>a. - item_count a)
       (map (groupItem os) (propertyOrder (firstSeen (map foodName os)))))
   \<and> ((\<forall>x \<in> set os. \<not> isArrayIndex (food_type x)) \<longrightarrow>
        topFoodItems (calculateAnalytics P os) = topFoodItems_spec os)
   \<and> length (topFoodItems (calculateAnalytics P os)) \<le> 5
   \<and> sorted (map (\<lambda>a. - item_count a) (topFoodItems (calculateAnalytics P os)))"
proof -
  have "propertyOrder (firstSeen (map foodName os)) = firstSeen (map foodName os)"
    if "\<forall>x \<in> set os. \<not> isArrayIndex (food_type x)"
    using that by (intro propertyOrder_plain) (simp add: set_firstSeen isArrayIndex_foodName)
  moreover have "sorted (map (\<lambda>a. - item_count a) (take 5 (sort_key (\<lambda>a. - item_count a) xs)))"
    for xs :: "top_item list"
    by (simp add: take_map [symmetric] sorted_wrt_take)
  ultimately show ?thesis
    by (simp add: calculateAnalytics_def Let_def topItems_eq topFoodItems_spec_def)
qed

text \<open>
  An instance with a tie: two groups of 3 packs each; the fried rice, met first, stays
  first, and the single pack of noodles comes last.
\<close>

theorem topFoodItems_grouping_witness:
  "topFoodItems (calculateAnalytics parseISODate
      [sampleOrder ''a'' ''2026-11-03T10:00:00'' ''fried-rice'' 2 ''pickup'' 50,
       sampleOrder ''b'' ''2026-11-03T11:00:00'' ''noodles-chicken'' 1 ''pickup'' 25,
       sampleOrder ''c'' ''2026-11-03T12:00:00'' ''jollof'' 3 ''delivery'' 68,
       sampleOrder ''d'' ''2026-11-07T18:30:00'' ''fried-rice'' 1 ''pickup'' 30])
   = [\<lparr>item_name = ''Check Check Fried Rice'', item_count = 3, item_revenue = 80\<rparr>,
      \<lparr>item_name = ''jollof'', item_count = 3, item_revenue = 68\<rparr>,
      \<lparr>item_name = ''Super Loaded Noodles (With Chicken)'', item_count = 1, item_revenue = 25\<rparr>]"
proof -
  let ?os = "[sampleOrder ''a'' ''2026-11-03T10:00:00'' ''fried-rice'' 2 ''pickup'' 50,
       sampleOrder ''b'' ''2026-11-03T11:00:00'' ''noodles-chicken'' 1 ''pickup'' 25,
       sampleOrder ''c'' ''2026-11-03T12:00:00'' ''jollof'' 3 ''delivery'' 68,
       sampleOrder ''d'' ''2026-11-07T18:30:00'' ''fried-rice'' 1 ''pickup'' 30]"
  have "\<forall>x \<in> set ?os. \<not> isArrayIndex (food_type x)"
    by (simp add: sampleOrder_fields isArrayIndex_def isDigit_def)
  with topFoodItems_grouping [of parseISODate ?os]
  have "topFoodItems (calculateAnalytics parseISODate ?os) = topFoodItems_spec ?os"
    by blast
  then show ?thesis
    by (simp add: topFoodItems_spec_def firstSeen_def groupItem_def foodName_def
        foodTypeLabels_def inheritedKeyText_def objectPrototypeFunctions_def
        sampleOrder_fields)
qed

text \<open>
  First-encountered order does not hold where names are array indices: of two orders
  of one pack each, for the identifiers 2 and then 1, the code lists 1 before 2. And the
  raw identifier is not the name of every unknown identifier: an order for the
  identifier constructor is listed under the text of the inherited member.
\<close>

theorem topFoodItems_counterexample:
  "map item_name (topFoodItems (calculateAnalytics parseISODate
      [sampleOrder ''a'' ''2026-11-03T10:00:00'' ''2'' 1 ''pickup'' 20,
       sampleOrder ''b'' ''2026-11-03T11:00:00'' ''1'' 1 ''pickup'' 20])) = [''1'', ''2'']
   \<and> map item_name (topFoodItems_spec
      [sampleOrder ''a'' ''2026-11-03T10:00:00'' ''2'' 1 ''pickup'' 20,
       sampleOrder ''b'' ''2026-11-03T11:00:00'' ''1'' 1 ''pickup'' 20]) = [''2'', ''1'']
   \<and> map item_name (topFoodItems (calculateAnalytics parseISODate
      [sampleOrder ''c'' ''2026-11-03T12:00:00'' ''constructor'' 1 ''pickup'' 20]))
     = [''function Object() { [native code] }'']"
  by (simp add: calculateAnalytics_def topItems_def foodStatsStep_def foodName_def
      foodTypeLabels_def inheritedKeyText_def objectPrototypeFunctions_def
      nativeFunctionText_def objectEntries_def isArrayIndex_def isDigit_def indexValue_def
      topFoodItems_spec_def firstSeen_def groupItem_def sampleOrder_fields)

text \<open>
  C3. For every list of orders, \<open>revenueByDay\<close> has exactly the 7 entries Mon, Tue, Wed,
  Thu, Fri, Sat, Sun in this order; the revenue of an entry is the sum of the total
  amounts of the orders created on that weekday and its order count is their number,
  both 0 for a weekday without orders.
\<close>

theorem revenueByDay_series:
  "revenueByDay (calculateAnalytics P os) =
     [dayItem P os ''Mon'' 1, dayItem P os ''Tue'' 2, dayItem P os ''Wed'' 3,
      dayItem P os ''Thu'' 4, dayItem P os ''Fri'' 5, dayItem P os ''Sat'' 6,
      dayItem P os ''Sun'' 0]"
  by (simp add: calculateAnalytics_def Let_def completeRevenueByDay_eq daysOfWeek_def dayGroup_def
      dayItem_def formatEEE_cases)

text \<open>
  C4. Aggregating the empty list gives zero counts, zero revenue, the average 0 (the
  finite number 0 of the guard, not the \<open>NaN\<close> that dividing by the length 0 would
  give), no top items and the 7 all-zero day entries; the total revenue is the sum of the
  amounts, and for a non-empty list the average is the finite quotient of that sum by
  the number of orders.
\<close>

theorem empty_and_average:
  "calculateAnalytics P ([] :: 'a order_data_scheme list) =
     \<lparr>pickupCount = 0, deliveryCount = 0, totalRevenue = 0, avgOrderValue = Finite 0,
      topFoodItems = [],
      revenueByDay = map (\<lambda>d. \<lparr>day = d, day_revenue = 0, day_orders = 0\<rparr>)
        [''Mon'', ''Tue'', ''Wed'', ''Thu'', ''Fri'', ''Sat'', ''Sun'']\<rparr>
   \<and> avgOrderValue (calculateAnalytics P ([] :: 'a order_data_scheme list))
        \<noteq> jsDivide 0 (of_nat (length ([] :: 'a order_data_scheme list)))
   \<and> totalRevenue (calculateAnalytics P os) = sum_list (map total_amount os)
   \<and> (os \<noteq> [] \<longrightarrow>
        avgOrderValue (calculateAnalytics P os)
          = Finite (sum_list (map total_amount os) / of_nat (length os))
        \<and> avgOrderValue (calculateAnalytics P os)
          = jsDivide (totalRevenue (calculateAnalytics P os)) (of_nat (length os)))"
proof -
  have e: "calculateAnalytics P ([] :: 'a order_data_scheme list) =
     \<lparr>pickupCount = 0, deliveryCount = 0, totalRevenue = 0, avgOrderValue = Finite 0,
      topFoodItems = [],
      revenueByDay = map (\<lambda>d. \<lparr>day = d, day_revenue = 0, day_orders = 0\<rparr>)
        [''Mon'', ''Tue'', ''Wed'', ''Thu'', ''Fri'', ''Sat'', ''Sun'']\<rparr>"
    by (simp add: calculateAnalytics_def Let_def topItems_def objectEntries_def
        completeRevenueByDay_def daysOfWeek_def)
  have n: "avgOrderValue (calculateAnalytics P ([] :: 'a order_data_scheme list))
        \<noteq> jsDivide 0 (of_nat (length ([] :: 'a order_data_scheme list)))"
    by (simp add: e jsDivide_def)
  have t: "totalRevenue (calculateAnalytics P os) = sum_list (map total_amount os)"
    by (simp add: calculateAnalytics_def Let_def foldl_plus_sum_list)
  have a: "avgOrderValue (calculateAnalytics P os)
          = Finite (sum_list (map total_amount os) / of_nat (length os))
        \<and> avgOrderValue (calculateAnalytics P os)
          = jsDivide (totalRevenue (calculateAnalytics P os)) (of_nat (length os))"
    if "os \<noteq> []"
    using that by (simp add: calculateAnalytics_def Let_def foldl_plus_sum_list jsDivide_def)
  from e n t a show ?thesis by blast
qed

theorem empty_and_average_witness:
  "avgOrderValue (calculateAnalytics parseISODate
      [sampleOrder ''a'' ''2026-11-03T10:00:00'' ''fried-rice'' 1 ''pickup'' 25,
       sampleOrder ''b'' ''2026-11-07T18:30:00'' ''noodles-no-chicken'' 2 ''delivery'' 53])
     = Finite 39
   \<and> totalRevenue (calculateAnalytics parseISODate
      [sampleOrder ''a'' ''2026-11-03T10:00:00'' ''fried-rice'' 1 ''pickup'' 25,
       sampleOrder ''b'' ''2026-11-07T18:30:00'' ''noodles-no-chicken'' 2 ''delivery'' 53]) = 78"
proof -
  let ?os = "[sampleOrder ''a'' ''2026-11-03T10:00:00'' ''fried-rice'' 1 ''pickup'' 25,
       sampleOrder ''b'' ''2026-11-07T18:30:00'' ''noodles-no-chicken'' 2 ''delivery'' 53]"
  have ne: "?os \<noteq> []" by simp
  from empty_and_average [of parseISODate ?os] ne
  have "avgOrderValue (calculateAnalytics parseISODate ?os)
          = Finite (sum_list (map total_amount ?os) / of_nat (length ?os))"
    and "totalRevenue (calculateAnalytics parseISODate ?os) = sum_list (map total_amount ?os)"
    by blast+
  then show ?thesis by (simp add: sampleOrder_fields)
qed

section \<open>Order types offered\<close>

lemma orderTypesEffect_types:
  "map opt_value (types (orderTypesEffect today)) =
     (if getDay today = 6 \<or> getDay today = 0 then [''same-day''] else [''pre-order''])"
  by (auto simp: orderTypesEffect_def baseOrderTypes_def Let_def)

text \<open>
  C5. The order types offered are a function of the date alone: on a Saturday or a
  Sunday exactly the one type same-day, on any other weekday exactly the one type
  pre-order. Saturday 7 November 2026 gives same-day, Tuesday 3 November 2026 pre-order.
\<close>

theorem order_types_by_weekday:
  "map opt_value (types (orderTypesEffect today)) =
     (if getDay today = 6 \<or> getDay today = 0 then [''same-day''] else [''pre-order''])
   \<and> weekend (orderTypesEffect today) = (getDay today = 6 \<or> getDay today = 0)
   \<and> map opt_value (types (orderTypesEffect \<lparr>year = 2026, month = 10, date = 7\<rparr>)) = [''same-day'']
   \<and> map opt_value (types (orderTypesEffect \<lparr>year = 2026, month = 10, date = 3\<rparr>)) = [''pre-order'']"
proof -
  have "weekend (orderTypesEffect today) = (getDay today = 6 \<or> getDay today = 0)"
    by (auto simp: orderTypesEffect_def Let_def)
  then show ?thesis
    by (simp add: orderTypesEffect_types getDay_samples)
qed

section \<open>Date range and order query\<close>

lemma week_bounds_sample:
  "startOfWeek \<lparr>year = 2026, month = 10, date = 3\<rparr> 1 = \<lparr>year = 2026, month = 10, date = 2\<rparr>"
  "endOfWeek \<lparr>year = 2026, month = 10, date = 3\<rparr> 1 = \<lparr>year = 2026, month = 10, date = 8\<rparr>"
  by (simp_all add: startOfWeek_def endOfWeek_def getDay_samples setDate_def newDate_def
      addDays_def nextDay_def daysInMonth_def eval_nat_numeral)

lemma formatYMD_samples:
  "formatYMD \<lparr>year = 2026, month = 10, date = 3\<rparr> = ''2026-11-03''"
  "formatYMD \<lparr>year = 2026, month = 10, date = 1\<rparr> = ''2026-11-01''"
  "formatYMD \<lparr>year = 2026, month = 10, date = 2\<rparr> = ''2026-11-02''"
  "formatYMD \<lparr>year = 2026, month = 10, date = 8\<rparr> = ''2026-11-08''"
  "formatYMD \<lparr>year = 2026, month = 10, date = 30\<rparr> = ''2026-11-30''"
  by (simp_all add: formatYMD_def addLeadingZeros_def showNat.simps digitChar_def)

lemma week_sample:
  "getDateRangeFilter ''week'' \<lparr>year = 2026, month = 10, date = 3\<rparr> [] []
     = \<lparr>range_start = ''2026-11-02'', range_end = ''2026-11-08''\<rparr>"
  by (simp add: getDateRangeFilter_def week_bounds_sample formatYMD_samples)

text \<open>
  C6. For every calendar date and mode, the range is a function of the date, the mode
  and the custom bounds: today gives the date twice; week gives the Monday and the
  Sunday of the week that contains the date; month gives the first and the last day of
  the month of the date; custom gives the supplied bounds; and for the mode all the
  query carries no bound on the creation time stamp, while for every other mode it
  carries both bounds, from 00:00:00 of the first day to 23:59:59 of the last.
\<close>

theorem date_range_resolution:
  assumes "valid_date d"
  shows "getDateRangeFilter ''today'' d cs ce
           = \<lparr>range_start = formatYMD d, range_end = formatYMD d\<rparr>
    \<and> (\<exists>mon sun. getDateRangeFilter ''week'' d cs ce
           = \<lparr>range_start = formatYMD mon, range_end = formatYMD sun\<rparr>
         \<and> valid_date mon \<and> valid_date sun \<and> getDay mon = 1 \<and> getDay sun = 0
         \<and> Day mon \<le> Day d \<and> Day d \<le> Day sun \<and> Day sun = Day mon + 6)
    \<and> getDateRangeFilter ''month'' d cs ce
           = \<lparr>range_start = formatYMD \<lparr>year = year d, month = month d, date = 1\<rparr>,
              range_end = formatYMD \<lparr>year = year d, month = month d,
                            date = daysInMonth (year d) (month d)\<rparr>\<rparr>
    \<and> getDateRangeFilter ''custom'' d cs ce = \<lparr>range_start = cs, range_end = ce\<rparr>
    \<and> created_at_gte (ordersQuery ''all'' d cs ce) = None
    \<and> created_at_lte (ordersQuery ''all'' d cs ce) = None
    \<and> (mode \<noteq> ''all'' \<longrightarrow>
          created_at_gte (ordersQuery mode d cs ce)
            = Some (range_start (getDateRangeFilter mode d cs ce) @ ''T00:00:00'')
        \<and> created_at_lte (ordersQuery mode d cs ce)
            = Some (range_end (getDateRangeFilter mode d cs ce) @ ''T23:59:59''))"
proof -
  have today: "getDateRangeFilter ''today'' d cs ce
           = \<lparr>range_start = formatYMD d, range_end = formatYMD d\<rparr>"
    by (simp add: getDateRangeFilter_def)
  have week: "\<exists>mon sun. getDateRangeFilter ''week'' d cs ce
           = \<lparr>range_start = formatYMD mon, range_end = formatYMD sun\<rparr>
         \<and> valid_date mon \<and> valid_date sun \<and> getDay mon = 1 \<and> getDay sun = 0
         \<and> Day mon \<le> Day d \<and> Day d \<le> Day sun \<and> Day sun = Day mon + 6"
  proof (intro exI conjI)
    show "getDateRangeFilter ''week'' d cs ce
        = \<lparr>range_start = formatYMD (startOfWeek d 1), range_end = formatYMD (endOfWeek d 1)\<rparr>"
      by (simp add: getDateRangeFilter_def)
  qed (use startOfWeek_Monday [OF assms] endOfWeek_Sunday [OF assms] in simp_all)
  have month: "getDateRangeFilter ''month'' d cs ce
           = \<lparr>range_start = formatYMD \<lparr>year = year d, month = month d, date = 1\<rparr>,
              range_end = formatYMD \<lparr>year = year d, month = month d,
                            date = daysInMonth (year d) (month d)\<rparr>\<rparr>"
    using month_bounds [OF assms] by (simp add: getDateRangeFilter_def Let_def)
  have custom: "getDateRangeFilter ''custom'' d cs ce = \<lparr>range_start = cs, range_end = ce\<rparr>"
    by (simp add: getDateRangeFilter_def)
  have q: "created_at_gte (ordersQuery ''all'' d cs ce) = None"
    "created_at_lte (ordersQuery ''all'' d cs ce) = None"
    "mode \<noteq> ''all'' \<longrightarrow>
          created_at_gte (ordersQuery mode d cs ce)
            = Some (range_start (getDateRangeFilter mode d cs ce) @ ''T00:00:00'')
        \<and> created_at_lte (ordersQuery mode d cs ce)
            = Some (range_end (getDateRangeFilter mode d cs ce) @ ''T23:59:59'')"
    by (simp_all add: ordersQuery_def Let_def)
  from today week month custom q show ?thesis by blast
qed

theorem date_range_resolution_witness:
  "getDateRangeFilter ''today'' \<lparr>year = 2026, month = 10, date = 3\<rparr> [] []
     = \<lparr>range_start = ''2026-11-03'', range_end = ''2026-11-03''\<rparr>
   \<and> getDateRangeFilter ''week'' \<lparr>year = 2026, month = 10, date = 3\<rparr> [] []
     = \<lparr>range_start = ''2026-11-02'', range_end = ''2026-11-08''\<rparr>
   \<and> getDateRangeFilter ''month'' \<lparr>year = 2026, month = 10, date = 3\<rparr> [] []
     = \<lparr>range_start = ''2026-11-01'', range_end = ''2026-11-30''\<rparr>
   \<and> created_at_gte (ordersQuery ''month'' \<lparr>year = 2026, month = 10, date = 3\<rparr> [] [])
     = Some ''2026-11-01T00:00:00''
   \<and> created_at_lte (ordersQuery ''month'' \<lparr>year = 2026, month = 10, date = 3\<rparr> [] [])
     = Some ''2026-11-30T23:59:59''
   \<and> created_at_gte (ordersQuery ''all'' \<lparr>year = 2026, month = 10, date = 3\<rparr> [] []) = None"
proof -
  let ?d = "\<lparr>year = 2026, month = 10, date = 3\<rparr>"
  have v: "valid_date ?d" by (simp add: valid_date_def daysInMonth_def)
  have ne: "''month'' \<noteq> ''all''" by simp
  have dm: "daysInMonth 2026 10 = 30" by (simp add: daysInMonth_def)
  from date_range_resolution [OF v, of "[]" "[]" "''month''"] ne
  show ?thesis by (simp add: formatYMD_samples dm week_sample)
qed


section \<open>Order actions of the dashboard\<close>

text \<open>
  C7. In the dashboard of components/DashboardContent.tsx the actions offered for an
  order are determined by its payment status and order status: confirm payment exactly
  while the payment status is awaiting confirmation; start preparing exactly when the
  payment is confirmed paid and the order is pending; mark ready exactly when the order
  is preparing; mark delivered exactly when the order is ready. So confirm payment is not
  offered once the payment is confirmed, and mark delivered is not offered for a pending
  or preparing order. The dashboard of pages/Dashboard.tsx offers other actions.
\<close>

theorem action_buttons:
  "(confirmPayment \<in> set (offeredActions order))
      = (payment_status order = ''awaiting confirmation'')
   \<and> (markPreparing \<in> set (offeredActions order))
      = (payment_status order = ''confirmed paid'' \<and> order_status order = ''pending'')
   \<and> (markReady \<in> set (offeredActions order)) = (order_status order = ''preparing'')
   \<and> (markDelivered \<in> set (offeredActions order)) = (order_status order = ''ready'')
   \<and> cancelOrder \<notin> set (offeredActions order)
   \<and> distinct (offeredActions order)
   \<and> confirmPayment \<notin> set (offeredActions (order\<lparr>payment_status := ''confirmed paid''\<rparr>))
   \<and> markDelivered \<notin> set (offeredActions (order\<lparr>order_status := ''pending''\<rparr>))
   \<and> markDelivered \<notin> set (offeredActions (order\<lparr>order_status := ''preparing''\<rparr>))"
  by (simp add: offeredActions_def)


text \<open>
  The dashboard of pages/Dashboard.tsx does not follow these conditions: for a paid order
  in preparation it offers no mark ready (and offers to cancel), and for a ready order
  whose payment awaits confirmation it offers no mark delivered.
\<close>

theorem action_buttons_counterexample:
  "order_status (samplePaidPageOrder ''o1'' ''preparing'') = ''preparing''
   \<and> page_offeredActions (samplePaidPageOrder ''o1'' ''preparing'') = [cancelOrder]
   \<and> markReady \<notin> set (page_offeredActions (samplePaidPageOrder ''o1'' ''preparing''))
   \<and> order_status (samplePageOrder ''o2'' ''ready'') = ''ready''
   \<and> page_offeredActions (samplePageOrder ''o2'' ''ready'') = [confirmPayment]
   \<and> markDelivered \<notin> set (page_offeredActions (samplePageOrder ''o2'' ''ready''))"
  by (simp add: page_offeredActions_def samplePaidPageOrder_def samplePageOrder_def)

text \<open>
  C10. In components/DashboardContent.tsx, \<open>handleOrderAction\<close> with the action
  cancelOrder sends no request to the order store: it shows an error notification and
  returns, the state of the dashboard (selected order included) and every order row stay
  as they are, and no update that this handler ever sends sets the order status to
  cancelled. This is a property of this handler and not of the application as a whole:
  the handler of pages/Dashboard.tsx sends the update.
\<close>

theorem cancel_is_refused:
  "(selectedOrder st = Some sel \<and> actionType st = Some cancelOrder \<longrightarrow>
      handleOrderAction env st
        = (st, [ToastShown \<lparr>title = ''Error'',
                  description = ''Cancel feature not implemented in database'',
                  variant = Destructive\<rparr>])
      \<and> storeAfter order_id (snd (handleOrderAction env st)) rows = rows)
   \<and> (\<forall>c k u. OrdersUpdate c k u \<in> set (snd (handleOrderAction env st)) \<longrightarrow>
         actionType st \<noteq> Some cancelOrder \<and> upd_order_status u \<noteq> Some ''cancelled'')"
proof -
  have a: "handleOrderAction env st
        = (st, [ToastShown \<lparr>title = ''Error'',
                  description = ''Cancel feature not implemented in database'',
                  variant = Destructive\<rparr>])"
    if "selectedOrder st = Some sel" "actionType st = Some cancelOrder"
    using that by (simp add: handleOrderAction_def actionUpdates_def)
  have b: "actionType st \<noteq> Some cancelOrder \<and> upd_order_status u \<noteq> Some ''cancelled''"
    if "OrdersUpdate c k u \<in> set (snd (handleOrderAction env st))" for c k u
    using that
    by (auto simp: handleOrderAction_def actionUpdates_def fetchOrders_def Let_def noUpdates_def
        split: option.splits action_type.splits response.splits prod.splits)
  from a b show ?thesis by (auto simp del: storeAfter.simps simp add: storeAfter.simps(1,3))
qed


theorem cancel_is_refused_witness:
  "handleOrderAction (sampleEnv [sampleOrder ''o1'' ''2026-11-03T10:00:00'' ''fried-rice'' 1 ''pickup'' 25])
     (sampleDashboard [sampleOrder ''o1'' ''2026-11-03T10:00:00'' ''fried-rice'' 1 ''pickup'' 25]
        (Some (sampleOrder ''o1'' ''2026-11-03T10:00:00'' ''fried-rice'' 1 ''pickup'' 25))
        (Some cancelOrder))
   = (sampleDashboard [sampleOrder ''o1'' ''2026-11-03T10:00:00'' ''fried-rice'' 1 ''pickup'' 25]
        (Some (sampleOrder ''o1'' ''2026-11-03T10:00:00'' ''fried-rice'' 1 ''pickup'' 25))
        (Some cancelOrder),
      [ToastShown \<lparr>title = ''Error'',
         description = ''Cancel feature not implemented in database'',
         variant = Destructive\<rparr>])"
proof -
  let ?o = "sampleOrder ''o1'' ''2026-11-03T10:00:00'' ''fried-rice'' 1 ''pickup'' 25"
  let ?st = "sampleDashboard [?o] (Some ?o) (Some cancelOrder)"
  have s: "selectedOrder ?st = Some ?o \<and> actionType ?st = Some cancelOrder"
    by (simp add: sampleDashboard_def)
  from cancel_is_refused [of ?st ?o "sampleEnv [?o]" "[]"] s
  show ?thesis by blast
qed

text \<open>
  In pages/Dashboard.tsx the same action sends the update: the first effect is the
  request that sets the order status to cancelled, and a store that applies the requests
  holds the order as cancelled afterwards.
\<close>

theorem cancel_counterexample:
  "hd (snd (page_handleOrderAction (sampleEnv [samplePageOrder ''o1'' ''cancelled''])
        (sampleDashboard [samplePageOrder ''o1'' ''pending'']
           (Some (samplePageOrder ''o1'' ''pending'')) (Some cancelOrder))))
     = OrdersUpdate ''id'' ''o1'' \<lparr>upd_payment_status = None, upd_order_status = Some ''cancelled''\<rparr>
   \<and> map order_status
        (storeAfter id_of
           (snd (page_handleOrderAction (sampleEnv [samplePageOrder ''o1'' ''cancelled''])
              (sampleDashboard [samplePageOrder ''o1'' ''pending'']
                 (Some (samplePageOrder ''o1'' ''pending'')) (Some cancelOrder))))
           [samplePageOrder ''o1'' ''pending''])
     = [''cancelled'']"
  by (simp add: page_handleOrderAction_def page_actionUpdates_def sampleEnv_def
      sampleDashboard_def fetchOrders_def Let_def noUpdates_def samplePageOrder_def
      applyUpdates_def)

section \<open>Submission of the order form\<close>

lemma handleSubmit_missing:
  assumes "missingInput st"
  shows "\<exists>t d. handleSubmit env st = (st, [PreventDefault, destructive t d])"
  using assms unfolding missingInput_def handleSubmit_def Let_def
  by (auto split: if_splits)

lemma handleSubmit_complete:
  assumes "\<not> missingInput st"
  shows "\<exists>st' rest. handleSubmit env st
           = (st', PreventDefault # OrdersInsert (orderRow (formData st)) # rest)
         \<and> (\<forall>p. OrdersInsert p \<notin> set rest)"
  using assms unfolding missingInput_def handleSubmit_def Let_def orderFailed_def destructive_def
  by (auto split: response.splits sum.splits)

lemma handleSubmit_inserts:
  "OrdersInsert p \<in> set (snd (handleSubmit env st)) \<Longrightarrow> p = orderRow (formData st)"
proof (cases "missingInput st")
  case True
  from handleSubmit_missing [OF True, of env] obtain t d
    where "handleSubmit env st = (st, [PreventDefault, destructive t d])" by blast
  moreover assume "OrdersInsert p \<in> set (snd (handleSubmit env st))"
  ultimately show ?thesis by (simp add: destructive_def)
next
  case False
  from handleSubmit_complete [OF False, of env] obtain st' rest
    where h: "handleSubmit env st = (st', PreventDefault # OrdersInsert (orderRow (formData st)) # rest)"
      and r: "\<forall>p. OrdersInsert p \<notin> set rest" by blast
  assume "OrdersInsert p \<in> set (snd (handleSubmit env st))"
  with h r show ?thesis by auto
qed

text \<open>
  C8. When a required input is missing (terms not agreed, blank name, no
  food type, no order type, or delivery chosen with a blank address), \<open>handleSubmit\<close>
  detects it before any remote call, reports it as one destructive notification and
  returns: no order row is inserted and the state of the form is unchanged. Nothing is
  reported next to the offending field: the texts that the form renders are the same
  before and after.
\<close>

theorem validation_aborts:
  assumes "missingInput st"
  shows "(\<exists>t d. handleSubmit env st
            = (st, [PreventDefault, FormToast \<lparr>title = t, description = d, variant = Destructive\<rparr>]))
    \<and> (\<forall>p. OrdersInsert p \<notin> set (snd (handleSubmit env st)))
    \<and> fst (handleSubmit env st) = st
    \<and> inlineMessages (fst (handleSubmit env st)) = inlineMessages st"
proof -
  from handleSubmit_missing [OF assms, of env] obtain t d
    where h: "handleSubmit env st = (st, [PreventDefault, destructive t d])" by blast
  then show ?thesis by (auto simp: destructive_def)
qed

theorem validation_aborts_witness:
  "handleSubmit sampleFormEnv (sampleForm True ''  '' ''fried-rice'')
     = (sampleForm True ''  '' ''fried-rice'',
        [PreventDefault,
         FormToast \<lparr>title = ''Missing information'', description = ''Please enter your name.'',
                    variant = Destructive\<rparr>])
   \<and> missingInput (sampleForm True ''  '' ''fried-rice'')"
proof -
  have m: "missingInput (sampleForm True ''  '' ''fried-rice'')"
    by (simp add: missingInput_def sampleForm_def trim_def isWhiteSpace_def)
  from validation_aborts [OF m, of sampleFormEnv] obtain t d where
    "handleSubmit sampleFormEnv (sampleForm True ''  '' ''fried-rice'')
       = (sampleForm True ''  '' ''fried-rice'',
          [PreventDefault, FormToast \<lparr>title = t, description = d, variant = Destructive\<rparr>])"
    by blast
  moreover have "snd (handleSubmit sampleFormEnv (sampleForm True ''  '' ''fried-rice''))
       = [PreventDefault,
          FormToast \<lparr>title = ''Missing information'', description = ''Please enter your name.'',
                    variant = Destructive\<rparr>]"
    by (simp add: handleSubmit_def sampleForm_def trim_def isWhiteSpace_def destructive_def)
  ultimately show ?thesis using m by simp
qed

text \<open>
  The specification also has the condition reported next to the offending field. With
  the terms agreed and the name empty, the submission shows the notification and the
  form renders no text about a missing input.
\<close>

theorem validation_inline_counterexample:
  "missingInput (sampleForm True [] ''fried-rice'')
   \<and> snd (handleSubmit sampleFormEnv (sampleForm True [] ''fried-rice''))
     = [PreventDefault,
        FormToast \<lparr>title = ''Missing information'', description = ''Please enter your name.'',
                   variant = Destructive\<rparr>]
   \<and> inlineMessages (fst (handleSubmit sampleFormEnv (sampleForm True [] ''fried-rice''))) = []"
  by (simp add: missingInput_def handleSubmit_def sampleForm_def trim_def destructive_def
      inlineMessages_def)

text \<open>
  C9. Every row that the submission inserts has the order status pending and the payment
  status awaiting confirmation, and its amounts are the price breakdown of the form at
  submission, so that its total amount is the sum of its subtotal, rush fee and delivery
  fee; and a submission with no required input missing does insert a row.
\<close>

theorem inserted_row:
  "(\<forall>p. OrdersInsert p \<in> set (snd (handleSubmit env st)) \<longrightarrow>
       ins_order_status p = ''pending''
     \<and> ins_payment_status p = ''awaiting confirmation''
     \<and> ins_subtotal p = subtotal (formData st)
     \<and> ins_rush_fee p = rushFee (formData st)
     \<and> ins_delivery_fee p = deliveryFee (formData st)
     \<and> ins_total_amount p = total_price (formData st)
     \<and> ins_total_amount p = ins_subtotal p + ins_rush_fee p + ins_delivery_fee p)
   \<and> (\<not> missingInput st \<longrightarrow>
        (\<exists>p. OrdersInsert p \<in> set (snd (handleSubmit env st))))"
proof -
  have "\<exists>p. OrdersInsert p \<in> set (snd (handleSubmit env st))" if "\<not> missingInput st"
    using handleSubmit_complete [OF that, of env] by auto
  moreover have "ins_order_status p = ''pending''
     \<and> ins_payment_status p = ''awaiting confirmation''
     \<and> ins_subtotal p = subtotal (formData st)
     \<and> ins_rush_fee p = rushFee (formData st)
     \<and> ins_delivery_fee p = deliveryFee (formData st)
     \<and> ins_total_amount p = total_price (formData st)
     \<and> ins_total_amount p = ins_subtotal p + ins_rush_fee p + ins_delivery_fee p"
    if "OrdersInsert p \<in> set (snd (handleSubmit env st))" for p
    using handleSubmit_inserts [OF that] by (simp add: orderRow_def total_price_def)
  ultimately show ?thesis by blast
qed

theorem inserted_row_witness:
  "(\<exists>p. OrdersInsert p \<in> set (snd (handleSubmit sampleFormEnv (sampleForm True ''Ama'' ''fried-rice'')))
        \<and> ins_order_status p = ''pending''
        \<and> ins_payment_status p = ''awaiting confirmation''
        \<and> ins_subtotal p = 50 \<and> ins_rush_fee p = 5 \<and> ins_delivery_fee p = 8
        \<and> ins_total_amount p = 63)"
proof -
  let ?st = "sampleForm True ''Ama'' ''fried-rice''"
  have m: "\<not> missingInput ?st"
    by (simp add: missingInput_def sampleForm_def trim_def isWhiteSpace_def)
  from inserted_row [of sampleFormEnv ?st] m obtain p
    where p: "OrdersInsert p \<in> set (snd (handleSubmit sampleFormEnv ?st))" by blast
  with inserted_row [of sampleFormEnv ?st]
  have "ins_order_status p = ''pending'' \<and> ins_payment_status p = ''awaiting confirmation''
     \<and> ins_subtotal p = subtotal (formData ?st) \<and> ins_rush_fee p = rushFee (formData ?st)
     \<and> ins_delivery_fee p = deliveryFee (formData ?st)
     \<and> ins_total_amount p = total_price (formData ?st)" by blast
  moreover have "subtotal (formData ?st) = 50" "rushFee (formData ?st) = 5"
    "deliveryFee (formData ?st) = 8" "total_price (formData ?st) = 63"
    by (simp_all add: sampleForm_def subtotal_def basePricePerPack_def selectedFood_def
        foodTypes_def rushFee_def deliveryFee_def total_price_def)
  ultimately show ?thesis using p by auto
qed


end
